theory Spec2Isabelle
  imports Main "HOL-Library.AList"
begin

unbundle bit_operations_syntax

section \<open>Strings\<close>

text \<open>
  JavaScript strings are modelled by their UTF-8 bytes, one \<^typ>\<open>char\<close> per byte, so that
  \<^verbatim>\<open>TextEncoder.encode\<close> is the byte view of the string and \<^verbatim>\<open>array.join("")\<close> is
  \<^const>\<open>concat\<close>. All characters the code compares against or inserts are ASCII.
\<close>

type_synonym byte = nat

definition encode :: "string \<Rightarrow> byte list" where
  "encode s = map of_char s"

definition join :: "string list \<Rightarrow> string" where
  "join array = concat array"

text \<open>
  \<^verbatim>\<open>n.toString(radix)\<close> for a non-negative integer and a radix from 2 to 16 (the program uses
  16, and 10 when it interpolates a number into a string), and \<^verbatim>\<open>padStart\<close>.
\<close>

definition digitChar :: "nat \<Rightarrow> char" where
  "digitChar d = ''0123456789abcdef'' ! d"

fun toString :: "nat \<Rightarrow> nat \<Rightarrow> string" where
  "toString radix n =
     (if n < radix \<or> radix < 2 then [digitChar n]
      else toString radix (n div radix) @ [digitChar (n mod radix)])"

declare toString.simps [simp del]

definition padStart :: "nat \<Rightarrow> char \<Rightarrow> string \<Rightarrow> string" where
  "padStart targetLength c s = replicate (targetLength - length s) c @ s"

text \<open>The character class of the regular expression \<^verbatim>\<open>/[/\\?%*:|"<>]/g\<close>.\<close>

definition unsafeChars :: "char list" where
  "unsafeChars = [CHR ''/'', CHR 0x5C, CHR ''?'', CHR ''%'', CHR ''*'', CHR '':'', CHR ''|'',
     CHR 0x22, CHR ''<'', CHR ''>'']"

definition replaceUnsafe :: "string \<Rightarrow> string" where
  "replaceUnsafe s = map (\<lambda>c. if c \<in> set unsafeChars then CHR ''-'' else c) s"



section \<open>SHA-256\<close>

text \<open>
  \<^verbatim>\<open>crypto.subtle.digest("SHA-256", data)\<close> is the function of FIPS 180-4. 32-bit words are
  natural numbers below \<open>2\<^sup>3\<^sup>2\<close>; every operation that can leave that range truncates to 32 bits.
  The round constants and the initial hash value are written in decimal.
\<close>

type_synonym w32 = nat

definition add32 :: "w32 \<Rightarrow> w32 \<Rightarrow> w32" where
  "add32 x y = take_bit 32 (x + y)"

definition not32 :: "w32 \<Rightarrow> w32" where
  "not32 x = 4294967295 - take_bit 32 x"

definition rotr :: "nat \<Rightarrow> w32 \<Rightarrow> w32" where
  "rotr n x = drop_bit n x OR take_bit 32 (push_bit (32 - n) x)"

definition shr :: "nat \<Rightarrow> w32 \<Rightarrow> w32" where
  "shr n x = drop_bit n x"

definition ch :: "w32 \<Rightarrow> w32 \<Rightarrow> w32 \<Rightarrow> w32" where
  "ch x y z = (x AND y) XOR (not32 x AND z)"

definition maj :: "w32 \<Rightarrow> w32 \<Rightarrow> w32 \<Rightarrow> w32" where
  "maj x y z = (x AND y) XOR (x AND z) XOR (y AND z)"

definition bsig0 :: "w32 \<Rightarrow> w32" where
  "bsig0 x = rotr 2 x XOR rotr 13 x XOR rotr 22 x"

definition bsig1 :: "w32 \<Rightarrow> w32" where
  "bsig1 x = rotr 6 x XOR rotr 11 x XOR rotr 25 x"

definition ssig0 :: "w32 \<Rightarrow> w32" where
  "ssig0 x = rotr 7 x XOR rotr 18 x XOR shr 3 x"

definition ssig1 :: "w32 \<Rightarrow> w32" where
  "ssig1 x = rotr 17 x XOR rotr 19 x XOR shr 10 x"

definition K256 :: "w32 list" where
  "K256 = [
  1116352408, 1899447441, 3049323471, 3921009573, 961987163, 1508970993, 2453635748, 2870763221,
  3624381080, 310598401, 607225278, 1426881987, 1925078388, 2162078206, 2614888103, 3248222580,
  3835390401, 4022224774, 264347078, 604807628, 770255983, 1249150122, 1555081692, 1996064986,
  2554220882, 2821834349, 2952996808, 3210313671, 3336571891, 3584528711, 113926993, 338241895,
  666307205, 773529912, 1294757372, 1396182291, 1695183700, 1986661051, 2177026350, 2456956037,
  2730485921, 2820302411, 3259730800, 3345764771, 3516065817, 3600352804, 4094571909, 275423344,
  430227734, 506948616, 659060556, 883997877, 958139571, 1322822218, 1537002063, 1747873779,
  1955562222, 2024104815, 2227730452, 2361852424, 2428436474, 2756734187, 3204031479, 3329325298]"

type_synonym hstate = "w32 \<times> w32 \<times> w32 \<times> w32 \<times> w32 \<times> w32 \<times> w32 \<times> w32"

definition H0 :: hstate where
  "H0 = (1779033703, 3144134277, 1013904242, 2773480762,
         1359893119, 2600822924, 528734635, 1541459225)"

text \<open>Padding: the bit 1, zeros up to 56 modulo 64 bytes, the bit length in 64 bits, big-endian.\<close>

definition lengthBytes :: "nat \<Rightarrow> byte list" where
  "lengthBytes n = map (\<lambda>i. take_bit 8 (drop_bit (8 * (7 - i)) n)) [0..<8]"

definition pad :: "byte list \<Rightarrow> byte list" where
  "pad m = m @ [128] @ replicate ((119 - length m mod 64) mod 64) 0 @ lengthBytes (8 * length m)"

fun blocks :: "nat \<Rightarrow> byte list \<Rightarrow> byte list list" where
  "blocks 0 bs = []"
| "blocks (Suc n) bs = take 64 bs # blocks n (drop 64 bs)"

definition be32 :: "byte list \<Rightarrow> w32" where
  "be32 bs = foldl (\<lambda>acc b. push_bit 8 acc + b) 0 (take 4 bs)"

text \<open>The message schedule: 16 words of the block, then 48 words from the recurrence.\<close>

fun expand :: "nat \<Rightarrow> w32 list \<Rightarrow> w32 list" where
  "expand 0 ws = ws"
| "expand (Suc n) ws =
     expand n (ws @ [add32 (add32 (add32 (ssig1 (ws ! (length ws - 2))) (ws ! (length ws - 7)))
                                  (ssig0 (ws ! (length ws - 15)))) (ws ! (length ws - 16))])"

definition schedule :: "byte list \<Rightarrow> w32 list" where
  "schedule blk = expand 48 (map (\<lambda>i. be32 (drop (4 * i) blk)) [0..<16])"

fun round256 :: "hstate \<Rightarrow> w32 \<times> w32 \<Rightarrow> hstate" where
  "round256 (a, b, c, d, e, f, g, h) (k, w) =
     (let t1 = add32 (add32 (add32 (add32 h (bsig1 e)) (ch e f g)) k) w;
          t2 = add32 (bsig0 a) (maj a b c)
      in (add32 t1 t2, a, b, c, add32 d t1, e, f, g))"

fun addState :: "hstate \<Rightarrow> hstate \<Rightarrow> hstate" where
  "addState (a, b, c, d, e, f, g, h) (a', b', c', d', e', f', g', h') =
     (add32 a a', add32 b b', add32 c c', add32 d d',
      add32 e e', add32 f f', add32 g g', add32 h h')"

definition compress :: "hstate \<Rightarrow> byte list \<Rightarrow> hstate" where
  "compress s blk = addState s (foldl round256 s (zip K256 (schedule blk)))"

definition wordBytes :: "w32 \<Rightarrow> byte list" where
  "wordBytes x = [take_bit 8 (drop_bit 24 x), take_bit 8 (drop_bit 16 x),
                  take_bit 8 (drop_bit 8 x), take_bit 8 x]"

fun stateBytes :: "hstate \<Rightarrow> byte list" where
  "stateBytes (a, b, c, d, e, f, g, h) = concat (map wordBytes [a, b, c, d, e, f, g, h])"

definition sha256 :: "byte list \<Rightarrow> byte list" where
  "sha256 m = stateBytes (foldl compress H0 (blocks (length (pad m) div 64) (pad m)))"

section \<open>Cache key\<close>

text \<open>
  \<^verbatim>\<open>generateHashFromArray\<close>: join the names without separator, encode, digest, and render
  each byte as two lowercase hexadecimal digits.
\<close>

definition hashHex :: "byte list \<Rightarrow> string" where
  "hashHex hashArray = concat (map (\<lambda>byte. padStart 2 CHR ''0'' (toString 16 byte)) hashArray)"

definition generateHashFromArray :: "string list \<Rightarrow> string" where
  "generateHashFromArray array = hashHex (sha256 (encode (join array)))"

text \<open>The characters of a lowercase hexadecimal rendering.\<close>

definition lowerHex :: "char set" where
  "lowerHex = set ''0123456789abcdef''"

section \<open>The environment\<close>

text \<open>
  A thrown JavaScript \<^verbatim>\<open>Error\<close> is a value; every function that can throw returns
  \<open>error + 'a\<close>, with \<^const>\<open>Inl\<close> for the throw.
\<close>

datatype error = Error (message: string)

text \<open>Of a \<^verbatim>\<open>Tag\<close> only the field \<^verbatim>\<open>name\<close> is read.\<close>

record tag =
  name :: string

text \<open>
  What \<^verbatim>\<open>fetch\<close> resolves to: the status, the body (\<^const>\<open>None\<close> for a null body) and
  what \<^verbatim>\<open>.json()\<close> yields for it (\<^const>\<open>None\<close> when the body is not a JSON array of tags).
  A transport failure rejects with an error message.
\<close>

record fetched =
  status :: nat
  body :: "byte list option"
  json :: "tag list option"

datatype outcome = Rejected string | Resolved fetched

definition ok :: "fetched \<Rightarrow> bool" where
  "ok r = (200 \<le> status r \<and> status r \<le> 299)"

text \<open>
  A ZIP stream is kept abstract: the entries appended so far, and whether the trailing index has
  been written by \<^verbatim>\<open>finalize\<close>.
\<close>

type_synonym entry = "string \<times> byte list"

datatype content = Archive (entries: "entry list") (finalized: bool)

text \<open>
  Calls in the \<^verbatim>\<open>try\<close> block of the listener that can throw for reasons outside the
  program; the environment decides, per call site, whether and what it throws.
\<close>

datatype site = AtWriteHead | AtCreateReadStream | AtMkdir | AtCreateWriteStream | AtFinalize

datatype event =
    Fetch string
  | Mkdir string
  | CreateReadStream string
  | CreateWriteStream string
  | Archiver
  | Append string
  | Finalize
  | Unlink string
  | ConsoleError error

text \<open>
  The world: \<open>net\<close> gives the outcome of the \<open>k\<close>-th request (\<open>k = 0, 1, \<dots>\<close>) for a URL,
  \<open>throws\<close> the local faults, \<open>files\<close> and \<open>dirs\<close> the file system, \<open>trace\<close> the external
  calls made so far in order, and \<open>pending\<close> the paths for which \<^verbatim>\<open>unlink\<close> was called and
  has not completed: the listener drops the promise instead of awaiting it.
\<close>

record world =
  net :: "string \<Rightarrow> nat \<Rightarrow> outcome"
  throws :: "site \<Rightarrow> error option"
  files :: "string \<rightharpoonup> content"
  dirs :: "string set"
  trace :: "event list"
  pending :: "string list"

definition fetch :: "string \<Rightarrow> world \<Rightarrow> outcome \<times> world" where
  "fetch input w =
     (net w input (count_list (trace w) (Fetch input)), w\<lparr>trace := trace w @ [Fetch input]\<rparr>)"

definition isExist :: "string \<Rightarrow> world \<Rightarrow> bool" where
  "isExist path w = (path \<in> dom (files w) \<or> path \<in> dirs w)"

text \<open>
  The \<^verbatim>\<open>ServerResponse\<close> of the HTTP server. \<open>written\<close> is the body received so far;
  \<open>piping\<close> is the path of a file whose read stream has been piped into the response by
  \<^verbatim>\<open>createReadStream(path).pipe(res)\<close>, the last statement of its branch, and has not
  delivered its data yet.
\<close>

record serverResponse =
  statusCode :: nat
  headers :: "(string \<times> string) list"
  headersSent :: bool
  written :: "content option"
  piping :: "string option"
  writableEnded :: bool
  destroyed :: bool

definition newResponse :: serverResponse where
  "newResponse = \<lparr>statusCode = 200, headers = [], headersSent = False, written = None,
     piping = None, writableEnded = False, destroyed = False\<rparr>"

definition writeHead :: "nat \<Rightarrow> (string \<times> string) list \<Rightarrow> serverResponse \<Rightarrow> serverResponse" where
  "writeHead code hs res = res\<lparr>statusCode := code, headers := hs, headersSent := True\<rparr>"

definition endResponse :: "serverResponse \<Rightarrow> serverResponse" where
  "endResponse res = res\<lparr>headersSent := True, writableEnded := True\<rparr>"

definition destroy :: "serverResponse \<Rightarrow> serverResponse" where
  "destroy res = res\<lparr>destroyed := True\<rparr>"

text \<open>
  Completing the outstanding work after the listener has returned: the unlinks in flight, then
  the read stream piped into the response, which ends the response with the data of the file.
\<close>

definition unlinkFile :: "world \<Rightarrow> string \<Rightarrow> world" where
  "unlinkFile w path = w\<lparr>files := (files w)(path := None)\<rparr>"

definition settle :: "serverResponse \<times> world \<Rightarrow> serverResponse \<times> world" where
  "settle s =
     (case s of (res, w) \<Rightarrow>
        (let w' = foldl unlinkFile (w\<lparr>pending := []\<rparr>) (pending w)
         in case piping res of
              None \<Rightarrow> (res, w')
            | Some path \<Rightarrow>
                (case files w' path of
                   Some c \<Rightarrow> (res\<lparr>written := Some c, piping := None, writableEnded := True\<rparr>, w')
                 | None \<Rightarrow> (res\<lparr>piping := None\<rparr>, w'))))"

section \<open>Version resolution\<close>

text \<open>
  The loop over the tags of \<^verbatim>\<open>getLatestVersionFromGitHub\<close>; \<open>notFound\<close> is the message of
  the error thrown after the loop.
\<close>

fun scanTags :: "string \<Rightarrow> tag list \<Rightarrow> error + string" where
  "scanTags notFound [] = Inl (Error notFound)"
| "scanTags notFound (tag # tags) =
     (if name tag \<noteq> ''v1998'' then Inr (name tag) else scanTags notFound tags)"

text \<open>The message of the \<^verbatim>\<open>SyntaxError\<close> of \<^verbatim>\<open>.json()\<close> is the engine's.\<close>

definition jsonError :: error where
  "jsonError = Error ''Unexpected end of JSON input''"

definition tagsUrl :: "string \<Rightarrow> string \<Rightarrow> string" where
  "tagsUrl owner repo = ''https://api.github.com/repos/'' @ owner @ ''/'' @ repo @ ''/tags''"

definition getLatestVersionFromGitHub :: "string \<Rightarrow> string \<Rightarrow> world \<Rightarrow> (error + string) \<times> world" where
  "getLatestVersionFromGitHub owner repo w =
     (case fetch (tagsUrl owner repo) w of
        (Rejected msg, w') \<Rightarrow> (Inl (Error msg), w')
      | (Resolved tagsResponse, w') \<Rightarrow>
          if \<not> ok tagsResponse then (Inl (Error ''Failed to fetch tags from GitHub repository''), w')
          else (case json tagsResponse of
                  None \<Rightarrow> (Inl jsonError, w')
                | Some tags \<Rightarrow> (scanTags ''No valid tags found in the repository'' tags, w')))"

section \<open>Fetching one file\<close>

text \<open>The body an attempt yields when it is successful: an ok status and a body.\<close>

definition bodyOf :: "outcome \<Rightarrow> byte list option" where
  "bodyOf out = (case out of Rejected msg \<Rightarrow> None | Resolved r \<Rightarrow> if ok r then body r else None)"

text \<open>
  One pass through the \<^verbatim>\<open>try\<close> of \<^verbatim>\<open>fetchBody\<close>: a rejection, a non-ok status and a
  null body all leave the loop running.
\<close>

definition tryFetchBody :: "string \<Rightarrow> world \<Rightarrow> byte list option \<times> world" where
  "tryFetchBody input w =
     (case fetch input w of
        (Rejected msg, w') \<Rightarrow> (None, w')
      | (Resolved fetchBodyResponse, w') \<Rightarrow>
          (if \<not> ok fetchBodyResponse then None else body fetchBodyResponse, w'))"

function fetchBodyFrom :: "string \<Rightarrow> nat \<Rightarrow> nat \<Rightarrow> world \<Rightarrow> (error + byte list) \<times> world" where
  "fetchBodyFrom input retryCount repetition w =
     (if repetition < retryCount then
        (case tryFetchBody input w of
           (Some b, w') \<Rightarrow> (Inr b, w')
         | (None, w') \<Rightarrow> fetchBodyFrom input retryCount (Suc repetition) w')
      else (Inl (Error (''Failed to fetch body after '' @ toString 10 retryCount @ '' attempts'')), w))"
  by pat_completeness auto
termination
  by (relation "measure (\<lambda>(input, retryCount, repetition, w). retryCount - repetition)") auto

declare fetchBodyFrom.simps [simp del]

definition fetchBody :: "string \<Rightarrow> nat \<Rightarrow> world \<Rightarrow> (error + byte list) \<times> world" where
  "fetchBody input retryCount w = fetchBodyFrom input retryCount 0 w"

section \<open>The request listener\<close>

text \<open>The fields of the interface \<^verbatim>\<open>Noname\<close>, read as \<^verbatim>\<open>noname.action\<close> and so on.\<close>

record Noname =
  noname_action :: string
  noname_owner :: "string option"
  noname_repo :: "string option"
  noname_version :: "string option"
  noname_fileList :: "string list"

record request =
  req_method :: string
  noname :: Noname

text \<open>\<^verbatim>\<open>x || d\<close> on an optional string: \<^verbatim>\<open>undefined\<close> and \<^verbatim>\<open>""\<close> are falsy.\<close>

definition orElse :: "string option \<Rightarrow> string \<Rightarrow> string" where
  "orElse x d = (case x of None \<Rightarrow> d | Some s \<Rightarrow> if s = [] then d else s)"

definition pathJoin :: "string \<Rightarrow> string \<Rightarrow> string" where
  "pathJoin dir file = dir @ ''/'' @ file"

definition assetName :: "string \<Rightarrow> string \<Rightarrow> string \<Rightarrow> string \<Rightarrow> string" where
  "assetName owner repo version key =
     replaceUnsafe (''noname-asset-'' @ owner @ ''-'' @ repo @ ''-'' @ version @ ''-'' @ key @ ''.zip'')"

definition rawUrl :: "string \<Rightarrow> string \<Rightarrow> string \<Rightarrow> string \<Rightarrow> string" where
  "rawUrl owner repo version file =
     ''https://ghproxy.cc/https://raw.githubusercontent.com/'' @ owner @ ''/'' @ repo @ ''/''
       @ version @ ''/'' @ file"

definition zipHeaders :: "string \<Rightarrow> (string \<times> string) list" where
  "zipHeaders asset =
     [(''Content-Type'', ''application/zip''),
      (''Content-Disposition'', ''attachment; filename='' @ [CHR 0x22] @ asset @ [CHR 0x22])]"

definition sendZIPFile :: "serverResponse \<Rightarrow> string \<Rightarrow> world \<Rightarrow> error + serverResponse" where
  "sendZIPFile res asset w =
     (case throws w AtWriteHead of
        Some e \<Rightarrow> Inl e
      | None \<Rightarrow> Inr (writeHead 200 (zipHeaders asset) res))"

text \<open>
  \<^verbatim>\<open>Promise.all(fileList.map(file => limit(async () => ...)))\<close>, linearised: the tasks run one
  after the other in the order of the list; the first rejection ends the wait. Every entry
  appended goes to both sinks of the archive, the response and the cache file.
\<close>

fun downloadAll ::
  "(string \<Rightarrow> string) \<Rightarrow> string \<Rightarrow> string list \<Rightarrow> entry list \<Rightarrow> serverResponse \<Rightarrow> world
     \<Rightarrow> (error + entry list) \<times> serverResponse \<times> world" where
  "downloadAll url path [] archive res w = (Inr archive, res, w)"
| "downloadAll url path (file # rest) archive res w =
     (case fetchBody (url file) 5 w of
        (Inl e, w') \<Rightarrow> (Inl e, res, w')
      | (Inr b, w') \<Rightarrow>
          downloadAll url path rest (archive @ [(file, b)])
            (res\<lparr>written := Some (Archive (archive @ [(file, b)]) False)\<rparr>)
            (w'\<lparr>files := (files w')(path \<mapsto> Archive (archive @ [(file, b)]) False),
                trace := trace w' @ [Append file]\<rparr>))"

text \<open>The branch taken when the cache file exists.\<close>

definition cacheHit :: "string \<Rightarrow> string \<Rightarrow> serverResponse \<Rightarrow> world
    \<Rightarrow> (error + unit) \<times> serverResponse \<times> world" where
  "cacheHit asset path res w =
     (case sendZIPFile res asset w of
        Inl e \<Rightarrow> (Inl e, res, w)
      | Inr res1 \<Rightarrow>
          (case throws w AtCreateReadStream of
             Some e \<Rightarrow> (Inl e, res1, w)
           | None \<Rightarrow>
               (Inr (), res1\<lparr>piping := Some path\<rparr>,
                w\<lparr>trace := trace w @ [CreateReadStream path]\<rparr>)))"

text \<open>The branch taken otherwise: build the archive while responding with it.\<close>

definition makeDir :: "world \<Rightarrow> (error + unit) \<times> world" where
  "makeDir w =
     (if isExist ''noname'' w then (Inr (), w)
      else (case throws w AtMkdir of
              Some e \<Rightarrow> (Inl e, w)
            | None \<Rightarrow> (Inr (), w\<lparr>dirs := insert ''noname'' (dirs w),
                                   trace := trace w @ [Mkdir ''noname'']\<rparr>)))"

definition createWriteStream :: "string \<Rightarrow> world \<Rightarrow> (error + unit) \<times> world" where
  "createWriteStream path w =
     (case throws w AtCreateWriteStream of
        Some e \<Rightarrow> (Inl e, w)
      | None \<Rightarrow> (Inr (), w\<lparr>files := (files w)(path \<mapsto> Archive [] False),
                             trace := trace w @ [CreateWriteStream path]\<rparr>))"

definition finalize :: "string \<Rightarrow> entry list \<Rightarrow> serverResponse \<Rightarrow> world
    \<Rightarrow> (error + unit) \<times> serverResponse \<times> world" where
  "finalize path archive res w =
     (case throws w AtFinalize of
        Some e \<Rightarrow> (Inl e, res, w)
      | None \<Rightarrow>
          (Inr (), res\<lparr>written := Some (Archive archive True), writableEnded := True\<rparr>,
           w\<lparr>files := (files w)(path \<mapsto> Archive archive True),
              trace := trace w @ [Finalize]\<rparr>))"

definition cacheMiss :: "(string \<Rightarrow> string) \<Rightarrow> string \<Rightarrow> string \<Rightarrow> string list
    \<Rightarrow> serverResponse \<Rightarrow> world \<Rightarrow> (error + unit) \<times> serverResponse \<times> world" where
  "cacheMiss url asset path fileList res w =
     (case sendZIPFile res asset w of
        Inl e \<Rightarrow> (Inl e, res, w)
      | Inr res1 \<Rightarrow>
          (let res2 = res1\<lparr>written := Some (Archive [] False)\<rparr>;
               w2 = w\<lparr>trace := trace w @ [Archiver]\<rparr>
           in case makeDir w2 of
                (Inl e, w3) \<Rightarrow> (Inl e, res2, w3)
              | (Inr u, w3) \<Rightarrow>
                  (case createWriteStream path w3 of
                     (Inl e, w4) \<Rightarrow> (Inl e, res2, w4)
                   | (Inr u, w4) \<Rightarrow>
                       (case downloadAll url path fileList [] res2 w4 of
                          (Inl e, res5, w5) \<Rightarrow> (Inl e, res5, w5)
                        | (Inr archive, res5, w5) \<Rightarrow> finalize path archive res5 w5))))"

text \<open>
  The \<^verbatim>\<open>catch\<close> block. \<open>asset\<close> and \<open>path\<close> are the variables of that name, still \<^verbatim>\<open>""\<close>
  when the error was thrown before their assignment. The promise of \<^verbatim>\<open>unlink\<close> is dropped.
\<close>

definition catch :: "error \<Rightarrow> string \<Rightarrow> string \<Rightarrow> serverResponse \<Rightarrow> world \<Rightarrow> serverResponse \<times> world" where
  "catch e asset path res w =
     (let w1 = w\<lparr>trace := trace w @ [ConsoleError e]\<rparr>;
          res1 = (if headersSent res then destroy res else endResponse (writeHead 500 [] res))
      in if asset \<noteq> [] then
           (res1, w1\<lparr>trace := trace w1 @ [Unlink path], pending := pending w1 @ [path]\<rparr>)
         else (res1, w1))"

text \<open>
  \<^verbatim>\<open>if (!version) version = await getLatestVersionFromGitHub(owner, repo)\<close>: a version that
  is \<^verbatim>\<open>undefined\<close> or empty is looked up, any other is taken as it is.
\<close>

definition resolveVersion :: "string option \<Rightarrow> string \<Rightarrow> string \<Rightarrow> world \<Rightarrow> (error + string) \<times> world" where
  "resolveVersion version owner repo w =
     (case version of
        None \<Rightarrow> getLatestVersionFromGitHub owner repo w
      | Some v \<Rightarrow> if v = [] then getLatestVersionFromGitHub owner repo w else (Inr v, w))"

text \<open>
  The \<^verbatim>\<open>try\<close> block; beside its outcome it yields the values of the variables \<open>asset\<close>
  and \<open>path\<close> at its end, which the \<^verbatim>\<open>catch\<close> block reads.
\<close>

definition tryBlock :: "request \<Rightarrow> serverResponse \<Rightarrow> world
    \<Rightarrow> (error + unit) \<times> string \<times> string \<times> serverResponse \<times> world" where
  "tryBlock req res w =
     (let owner = orElse (noname_owner (noname req)) ''libccy'';
          repo = orElse (noname_repo (noname req)) ''noname'';
          fileList = noname_fileList (noname req)
      in case resolveVersion (noname_version (noname req)) owner repo w of
           (Inl e, w1) \<Rightarrow> (Inl e, [], [], res, w1)
         | (Inr version, w1) \<Rightarrow>
             (let asset = assetName owner repo version (generateHashFromArray fileList);
                  path = pathJoin ''noname'' asset
              in case (if isExist path w1 then cacheHit asset path res w1
                       else cacheMiss (rawUrl owner repo version) asset path fileList res w1) of
                   (r, res', w') \<Rightarrow> (r, asset, path, res', w')))"

definition nonameRequestListener :: "request \<Rightarrow> serverResponse \<Rightarrow> world \<Rightarrow> serverResponse \<times> world" where
  "nonameRequestListener req res w =
     (if req_method req \<noteq> ''POST'' then (endResponse (writeHead 400 [] res), w)
      else if noname_action (noname req) \<noteq> ''downloadAssets'' then
        (endResponse (writeHead 400 [] res), w)
      else (case tryBlock req res w of
              (Inl e, asset, path, res', w') \<Rightarrow> catch e asset path res' w'
            | (Inr u, asset, path, res', w') \<Rightarrow> (res', w')))"

section \<open>The handler \<^verbatim>\<open>getNoname\<close>\<close>

text \<open>
  The TypeScript handler returns a \<^verbatim>\<open>Response\<close> object instead of writing to a server
  response. Its retry loop collects the errors, its scheduler is \<^verbatim>\<open>pLimit(1)\<close>, and only
  the version is sanitised in the file name it announces.
\<close>

datatype bodyInit = Null | Text string | Blob "entry list"

datatype webResponse =
  Response (bodyInit: bodyInit) (initStatus: nat) (initHeaders: "(string \<times> string) list")

definition EOL :: string where
  "EOL = [CHR 0x0A]"

definition getLatestVersionFromGitHub_ts :: "string \<Rightarrow> string \<Rightarrow> world \<Rightarrow> (error + string) \<times> world" where
  "getLatestVersionFromGitHub_ts owner repo w =
     (let input = tagsUrl owner repo
      in case fetch input w of
           (Rejected msg, w') \<Rightarrow> (Inl (Error msg), w')
         | (Resolved tagsResponse, w') \<Rightarrow>
             if \<not> ok tagsResponse then (Inl (Error (''Failed to fetch tags from '' @ input)), w')
             else (case json tagsResponse of
                     None \<Rightarrow> (Inl jsonError, w')
                   | Some tags \<Rightarrow> (scanTags (''No valid tags found in '' @ input) tags, w')))"

definition tryFetchArrayBuffer :: "string \<Rightarrow> world \<Rightarrow> (error + byte list) \<times> world" where
  "tryFetchArrayBuffer input w =
     (case fetch input w of
        (Rejected msg, w') \<Rightarrow> (Inl (Error msg), w')
      | (Resolved r, w') \<Rightarrow>
          if \<not> ok r then
            (Inl (Error (''Fetch request of '' @ input @ '' failed with status: ''
                           @ toString 10 (status r))), w')
          else (Inr (case body r of None \<Rightarrow> [] | Some b \<Rightarrow> b), w'))"

function fetchArrayBufferFrom ::
  "string \<Rightarrow> nat \<Rightarrow> error list \<Rightarrow> nat \<Rightarrow> world \<Rightarrow> (error + byte list) \<times> world" where
  "fetchArrayBufferFrom input retryCount errors repetition w =
     (if repetition < retryCount then
        (case tryFetchArrayBuffer input w of
           (Inr b, w') \<Rightarrow> (Inr b, w')
         | (Inl e, w') \<Rightarrow> fetchArrayBufferFrom input retryCount (errors @ [e]) (Suc repetition) w')
      else
        (let msg = ''Failed to fetch array buffer of '' @ input @ '' after ''
                     @ toString 10 retryCount @ '' attempts''
         in (Inl (Error (if errors \<noteq> [] then msg @ concat (map (\<lambda>e. EOL @ message e) errors)
                         else msg)), w)))"
  by pat_completeness auto
termination
  by (relation "measure (\<lambda>(input, retryCount, errors, repetition, w). retryCount - repetition)") auto

declare fetchArrayBufferFrom.simps [simp del]

definition fetchArrayBuffer :: "string \<Rightarrow> nat \<Rightarrow> world \<Rightarrow> (error + byte list) \<times> world" where
  "fetchArrayBuffer input retryCount w = fetchArrayBufferFrom input retryCount [] 0 w"

definition rawUrl_ts :: "string \<Rightarrow> string \<Rightarrow> string \<Rightarrow> string \<Rightarrow> string" where
  "rawUrl_ts owner repo version file =
     ''https://raw.githubusercontent.com/'' @ owner @ ''/'' @ repo @ ''/'' @ version @ ''/'' @ file"

text \<open>\<^verbatim>\<open>zip.file(name, data)\<close> adds the entry, or replaces the entry of that name.\<close>

fun zipAll :: "(string \<Rightarrow> string) \<Rightarrow> string list \<Rightarrow> entry list \<Rightarrow> world
    \<Rightarrow> (error + entry list) \<times> world" where
  "zipAll url [] jszip w = (Inr jszip, w)"
| "zipAll url (file # rest) jszip w =
     (case fetchArrayBuffer (url file) 5 w of
        (Inl e, w') \<Rightarrow> (Inl e, w')
      | (Inr arrayBuffer, w') \<Rightarrow> zipAll url rest (AList.update file arrayBuffer jszip) w')"

definition resolveVersion_ts :: "string option \<Rightarrow> string \<Rightarrow> string \<Rightarrow> world \<Rightarrow> (error + string) \<times> world" where
  "resolveVersion_ts version owner repo w =
     (case version of
        None \<Rightarrow> getLatestVersionFromGitHub_ts owner repo w
      | Some v \<Rightarrow> if v = [] then getLatestVersionFromGitHub_ts owner repo w else (Inr v, w))"

definition tryGetNoname :: "Noname \<Rightarrow> world \<Rightarrow> (error + webResponse) \<times> world" where
  "tryGetNoname nn w =
     (let owner = orElse (noname_owner nn) ''libccy'';
          repo = orElse (noname_repo nn) ''noname'';
          fileList = noname_fileList nn
      in case resolveVersion_ts (noname_version nn) owner repo w of
           (Inl e, w1) \<Rightarrow> (Inl e, w1)
         | (Inr version, w1) \<Rightarrow>
             (case zipAll (rawUrl_ts owner repo version) fileList [] w1 of
                (Inl e, w2) \<Rightarrow> (Inl e, w2)
              | (Inr jszip, w2) \<Rightarrow>
                  (Inr (Response (Blob jszip) 200
                     [(''Content-Type'', ''application/zip''),
                      (''Content-Disposition'',
                       ''attachment; filename='' @ [CHR 0x22] @ ''noname-asset-'' @ owner @ ''-''
                         @ repo @ ''-'' @ replaceUnsafe version @ ''-''
                         @ generateHashFromArray fileList @ ''.zip'' @ [CHR 0x22])]), w2)))"

definition getNoname :: "Noname \<Rightarrow> world \<Rightarrow> webResponse \<times> world" where
  "getNoname nn w =
     (if noname_action nn \<noteq> ''downloadAssets'' then (Response Null 400 [], w)
      else (case tryGetNoname nn w of
              (Inr response, w') \<Rightarrow> (response, w')
            | (Inl e, w') \<Rightarrow>
                (Response (Text (message e)) 500 [], w'\<lparr>trace := trace w' @ [ConsoleError e]\<rparr>)))"

section \<open>Sample worlds and requests\<close>

text \<open>A remote that answers every request with the tags \<^verbatim>\<open>v1998\<close>, \<^verbatim>\<open>v2.0\<close>, \<^verbatim>\<open>v1.0\<close>.\<close>

definition tagsWorld :: world where
  "tagsWorld = \<lparr>net = (\<lambda>u k. Resolved \<lparr>status = 200, body = None,
       json = Some [\<lparr>name = ''v1998''\<rparr>, \<lparr>name = ''v2.0''\<rparr>, \<lparr>name = ''v1.0''\<rparr>]\<rparr>),
     throws = (\<lambda>s. None), files = Map.empty, dirs = {}, trace = [], pending = []\<rparr>"

text \<open>
  A world whose cache holds a completed archive under every path and in which
  \<^verbatim>\<open>writeHead\<close> throws.
\<close>

definition hitWorld :: world where
  "hitWorld = \<lparr>net = (\<lambda>u k. Rejected ''fetch failed''),
     throws = (\<lambda>s. if s = AtWriteHead then Some (Error ''Invalid character in header content'') else None),
     files = (\<lambda>p. Some (Archive [(''a.js'', [1, 2, 3])] True)), dirs = {}, trace = [], pending = []\<rparr>"

text \<open>A request for the files \<open>fl\<close> of version \<^verbatim>\<open>v1\<close> of the default repository.\<close>

definition pinnedRequest :: "string list \<Rightarrow> request" where
  "pinnedRequest fl = \<lparr>req_method = ''POST'', noname = \<lparr>noname_action = ''downloadAssets'',
     noname_owner = None, noname_repo = None, noname_version = Some ''v1'', noname_fileList = fl\<rparr>\<rparr>"

text \<open>A remote that rejects every request.\<close>

definition downWorld :: world where
  "downWorld = \<lparr>net = (\<lambda>u k. Rejected ''fetch failed''), throws = (\<lambda>s. None),
     files = Map.empty, dirs = {}, trace = [], pending = []\<rparr>"

text \<open>A request that names no version, so that the latest tag is looked up.\<close>

definition latestRequest :: "string list \<Rightarrow> request" where
  "latestRequest fl = \<lparr>req_method = ''POST'', noname = \<lparr>noname_action = ''downloadAssets'',
     noname_owner = None, noname_repo = None, noname_version = None, noname_fileList = fl\<rparr>\<rparr>"


text \<open>A world whose cache holds a completed archive under every path.\<close>

definition storedWorld :: world where
  "storedWorld = \<lparr>net = (\<lambda>u k. Rejected ''fetch failed''), throws = (\<lambda>s. None),
     files = (\<lambda>p. Some (Archive [(''a.js'', [1, 2, 3])] True)), dirs = {}, trace = [],
     pending = []\<rparr>"

section \<open>Version resolution finds the first tag other than the sentinel\<close>

lemma scanTags_all_sentinel:
  "(\<forall>x \<in> set tags. name x = ''v1998'') \<Longrightarrow> scanTags m tags = Inl (Error m)"
  by (induction tags) auto

lemma scanTags_first_other:
  "\<not> (\<forall>x \<in> set tags. name x = ''v1998'') \<Longrightarrow>
     \<exists>pre x post. tags = pre @ x # post \<and> (\<forall>p \<in> set pre. name p = ''v1998'')
        \<and> name x \<noteq> ''v1998'' \<and> scanTags m tags = Inr (name x)"
proof (induction tags)
  case Nil
  then show ?case by simp
next
  case (Cons t tags)
  show ?case
  proof (cases "name t = ''v1998''")
    case True
    with Cons.prems have "\<not> (\<forall>x \<in> set tags. name x = ''v1998'')" by simp
    from Cons.IH [OF this] obtain pre x post where
      "tags = pre @ x # post" "\<forall>p \<in> set pre. name p = ''v1998''"
      "name x \<noteq> ''v1998''" "scanTags m tags = Inr (name x)" by blast
    with True have "t # tags = (t # pre) @ x # post \<and> (\<forall>p \<in> set (t # pre). name p = ''v1998'')
        \<and> name x \<noteq> ''v1998'' \<and> scanTags m (t # tags) = Inr (name x)" by simp
    then show ?thesis by blast
  next
    case False
    then have "t # tags = [] @ t # tags \<and> (\<forall>p \<in> set []. name p = ''v1998'')
        \<and> name t \<noteq> ''v1998'' \<and> scanTags m (t # tags) = Inr (name t)" by simp
    then show ?thesis by blast
  qed
qed

text \<open>
  Claim C5. When no version is supplied, version resolution makes exactly one request, for the
  tag list. It returns the name of the first tag, in the order of the list, whose name is not
  \<^verbatim>\<open>v1998\<close>; it fails when the request is rejected or its status is not ok, and when every
  tag of the list is \<^verbatim>\<open>v1998\<close>, the empty list included. For the tags \<^verbatim>\<open>v1998\<close>,
  \<^verbatim>\<open>v2.0\<close>, \<^verbatim>\<open>v1.0\<close> it returns \<^verbatim>\<open>v2.0\<close>.
\<close>

theorem latest_version:
  assumes "version = None \<or> version = Some []"
    and "resolveVersion version owner repo w = (r, w')"
  shows "trace w' = trace w @ [Fetch (tagsUrl owner repo)]
    \<and> (case net w (tagsUrl owner repo) (count_list (trace w) (Fetch (tagsUrl owner repo))) of
         Rejected msg \<Rightarrow> r = Inl (Error msg)
       | Resolved t \<Rightarrow>
           (case json t of
              None \<Rightarrow> (\<exists>e. r = Inl e)
            | Some tags \<Rightarrow>
                if \<not> ok t then r = Inl (Error ''Failed to fetch tags from GitHub repository'')
                else if \<forall>x \<in> set tags. name x = ''v1998''
                  then r = Inl (Error ''No valid tags found in the repository'')
                else \<exists>pre x post. tags = pre @ x # post \<and> (\<forall>p \<in> set pre. name p = ''v1998'')
                       \<and> name x \<noteq> ''v1998'' \<and> r = Inr (name x)
                       \<and> (tags = [\<lparr>name = ''v1998''\<rparr>, \<lparr>name = ''v2.0''\<rparr>, \<lparr>name = ''v1.0''\<rparr>]
                            \<longrightarrow> r = Inr ''v2.0'')))"
proof -
  let ?u = "tagsUrl owner repo"
  let ?out = "net w ?u (count_list (trace w) (Fetch ?u))"
  from assms have run: "getLatestVersionFromGitHub owner repo w = (r, w')"
    by (auto simp: resolveVersion_def)
  have f: "fetch ?u w = (?out, w\<lparr>trace := trace w @ [Fetch ?u]\<rparr>)"
    by (simp add: fetch_def)
  from run f have tr: "trace w' = trace w @ [Fetch ?u]"
    by (auto simp: getLatestVersionFromGitHub_def split: outcome.splits if_splits option.splits)
  have res: "case ?out of
         Rejected msg \<Rightarrow> r = Inl (Error msg)
       | Resolved t \<Rightarrow>
           (case json t of
              None \<Rightarrow> (\<exists>e. r = Inl e)
            | Some tags \<Rightarrow>
                if \<not> ok t then r = Inl (Error ''Failed to fetch tags from GitHub repository'')
                else if \<forall>x \<in> set tags. name x = ''v1998''
                  then r = Inl (Error ''No valid tags found in the repository'')
                else \<exists>pre x post. tags = pre @ x # post \<and> (\<forall>p \<in> set pre. name p = ''v1998'')
                       \<and> name x \<noteq> ''v1998'' \<and> r = Inr (name x)
                       \<and> (tags = [\<lparr>name = ''v1998''\<rparr>, \<lparr>name = ''v2.0''\<rparr>, \<lparr>name = ''v1.0''\<rparr>]
                            \<longrightarrow> r = Inr ''v2.0''))"
  proof (cases ?out)
    case (Rejected msg)
    with run f show ?thesis by (simp add: getLatestVersionFromGitHub_def)
  next
    case (Resolved t)
    show ?thesis
    proof (cases "json t")
      case None
      with run f Resolved show ?thesis
        by (auto simp: getLatestVersionFromGitHub_def split: if_splits)
    next
      case (Some tags)
      show ?thesis
      proof (cases "ok t")
        case False
        with run f Resolved Some show ?thesis by (simp add: getLatestVersionFromGitHub_def)
      next
        case True
        with run f Resolved Some
        have r: "r = scanTags ''No valid tags found in the repository'' tags"
          by (simp add: getLatestVersionFromGitHub_def)
        show ?thesis
        proof (cases "\<forall>x \<in> set tags. name x = ''v1998''")
          case all: True
          with r have "r = Inl (Error ''No valid tags found in the repository'')"
            by (simp add: scanTags_all_sentinel)
          with Resolved Some True all show ?thesis by simp
        next
          case some: False
          from scanTags_first_other [OF some, of "''No valid tags found in the repository''"] r
          obtain pre x post where px: "tags = pre @ x # post" "\<forall>p \<in> set pre. name p = ''v1998''"
            "name x \<noteq> ''v1998''" "r = Inr (name x)" by auto
          have "tags = [\<lparr>name = ''v1998''\<rparr>, \<lparr>name = ''v2.0''\<rparr>, \<lparr>name = ''v1.0''\<rparr>]
                  \<longrightarrow> r = Inr ''v2.0''"
            using r by simp
          with px Resolved Some True some show ?thesis by auto
        qed
      qed
    qed
  qed
  from tr res show ?thesis by blast
qed

theorem latest_version_witness:
  "fst (resolveVersion None ''libccy'' ''noname'' tagsWorld) = Inr ''v2.0''
   \<and> trace (snd (resolveVersion None ''libccy'' ''noname'' tagsWorld))
       = [Fetch ''https://api.github.com/repos/libccy/noname/tags'']"
proof -
  have h: "None = None \<or> None = Some []"
    by simp
  obtain r w' where run: "resolveVersion None ''libccy'' ''noname'' tagsWorld = (r, w')"
    by fastforce
  from latest_version [OF h run] have "r = Inr ''v2.0''"
    and "trace w' = [Fetch ''https://api.github.com/repos/libccy/noname/tags'']"
    by (auto simp: tagsWorld_def tagsUrl_def ok_def)
  with run show ?thesis by simp
qed

section \<open>The cache key\<close>

lemma digitChar_hex: "d < 16 \<Longrightarrow> digitChar d \<in> lowerHex"
  unfolding digitChar_def lowerHex_def by (rule nth_mem) simp

lemma toString16_byte:
  "b < 256 \<Longrightarrow> padStart 2 CHR ''0'' (toString 16 b) =
     (if b < 16 then [CHR ''0'', digitChar b] else [digitChar (b div 16), digitChar (b mod 16)])"
proof (cases "b < 16")
  case True
  then show ?thesis by (simp add: toString.simps [of 16 b] padStart_def)
next
  case False
  assume "b < 256"
  then have "b div 16 < 16" by simp
  then have "toString 16 (b div 16) = [digitChar (b div 16)]"
    by (simp add: toString.simps [of 16 "b div 16"])
  with False show ?thesis by (simp add: toString.simps [of 16 b] padStart_def)
qed

lemma hex_byte:
  assumes "b < 256"
  shows "length (padStart 2 CHR ''0'' (toString 16 b)) = 2"
    and "set (padStart 2 CHR ''0'' (toString 16 b)) \<subseteq> lowerHex"
proof -
  from assms have d: "b div 16 < 16" by simp
  have m: "b mod 16 < 16" by simp
  have z: "CHR ''0'' \<in> lowerHex" by (simp add: lowerHex_def)
  show "length (padStart 2 CHR ''0'' (toString 16 b)) = 2"
    using assms by (simp add: toString16_byte)
  show "set (padStart 2 CHR ''0'' (toString 16 b)) \<subseteq> lowerHex"
    using digitChar_hex [OF d] digitChar_hex [OF m] digitChar_hex [of b] z assms
    by (simp add: toString16_byte)
qed

lemma wordBytes_bytes: "length (wordBytes x) = 4 \<and> (\<forall>b \<in> set (wordBytes x). b < 256)"
proof -
  have "take_bit 8 (n::nat) < 256" for n
    using take_bit_nat_less_exp [of 8 n] by simp
  then show ?thesis by (simp add: wordBytes_def)
qed

lemma stateBytes_bytes: "length (stateBytes s) = 32 \<and> (\<forall>b \<in> set (stateBytes s). b < 256)"
proof -
  obtain a b c d e f g h where s: "s = (a, b, c, d, e, f, g, h)"
    by (cases s) auto
  show ?thesis
    unfolding s using wordBytes_bytes by auto
qed

lemma sha256_bytes: "length (sha256 m) = 32 \<and> (\<forall>b \<in> set (sha256 m). b < 256)"
  unfolding sha256_def by (rule stateBytes_bytes)

lemma hashHex_length: "\<forall>b \<in> set bs. b < 256 \<Longrightarrow> length (hashHex bs) = 2 * length bs"
  by (induction bs) (simp_all add: hashHex_def hex_byte(1))

lemma hashHex_chars: "\<forall>b \<in> set bs. b < 256 \<Longrightarrow> set (hashHex bs) \<subseteq> lowerHex"
proof (induction bs)
  case Nil
  then show ?case by (simp add: hashHex_def)
next
  case (Cons b bs)
  then have "set (padStart 2 CHR ''0'' (toString 16 b)) \<subseteq> lowerHex"
    by (simp add: hex_byte(2))
  moreover from Cons have "set (hashHex bs) \<subseteq> lowerHex" by simp
  ultimately show ?case
    by (simp add: hashHex_def)
qed

text \<open>
  Claim C2, as amended. The cache key is a function of the concatenation of the file names in
  the order given: it is the digest of that concatenation, always 64 lowercase hexadecimal
  characters, and two lists with the same concatenation get the same key. Nothing is promised
  for lists whose concatenations differ.
\<close>

theorem cache_key_of_concatenation:
  "generateHashFromArray xs = hashHex (sha256 (encode (concat xs)))
   \<and> length (generateHashFromArray xs) = 64
   \<and> set (generateHashFromArray xs) \<subseteq> lowerHex
   \<and> (concat xs = concat ys \<longrightarrow> generateHashFromArray xs = generateHashFromArray ys)"
  using sha256_bytes [of "encode (concat xs)"]
  by (simp add: generateHashFromArray_def join_def hashHex_length hashHex_chars)

theorem cache_key_of_concatenation_witness:
  "concat [''a'', ''aa''] = concat [''aa'', ''a'']
   \<and> generateHashFromArray [''a'', ''aa''] = generateHashFromArray [''aa'', ''a'']
   \<and> length (generateHashFromArray [''a'', ''aa'']) = 64"
proof -
  have c: "concat [''a'', ''aa''] = concat [''aa'', ''a'']"
    by simp
  from cache_key_of_concatenation [of "[''a'', ''aa'']" "[''aa'', ''a'']"] c
  show ?thesis by blast
qed

text \<open>
  The claim as stated fails: the lists \<^verbatim>\<open>["a", "aa"]\<close> and \<^verbatim>\<open>["aa", "a"]\<close> differ, hold the
  same names in a different order, and get the same key, since both concatenate to
  \<^verbatim>\<open>aaa\<close>.
\<close>

theorem cache_key_collision:
  "[''a'', ''aa''] \<noteq> [''aa'', ''a''] \<and> rev [''a'', ''aa''] = [''aa'', ''a'']
   \<and> generateHashFromArray [''a'', ''aa''] = generateHashFromArray [''aa'', ''a'']"
  by (simp add: generateHashFromArray_def join_def)

subsection \<open>The digest of the empty message\<close>

text \<open>
  The digest of the empty message is evaluated in stages: the padded block, its message
  schedule, the 64 rounds, and the rendering in hexadecimal.
\<close>

lemma expand_numeral:
  "expand (numeral k) ws =
     expand (pred_numeral k)
       (ws @ [add32 (add32 (add32 (ssig1 (ws ! (length ws - 2))) (ws ! (length ws - 7)))
                            (ssig0 (ws ! (length ws - 15)))) (ws ! (length ws - 16))])"
  by (simp add: numeral_eq_Suc)

lemma replicate_numeral: "replicate (numeral k) x = x # replicate (pred_numeral k) x"
  by (simp add: numeral_eq_Suc)

lemma pad_Nil: "pad [] =
     [128, 0, 0, 0, 0, 0, 0, 0, 0, 0, 0, 0, 0, 0, 0, 0, 0, 0, 0, 0, 0, 0, 0, 0, 0, 0, 0, 0, 0, 0,
     0, 0, 0, 0, 0, 0, 0, 0, 0, 0, 0, 0, 0, 0, 0, 0, 0, 0, 0, 0, 0, 0, 0, 0, 0, 0, 0, 0, 0, 0, 0,
     0, 0, 0]"
  by (simp add: pad_def lengthBytes_def replicate_numeral upt_rec)

lemma blocks_pad_Nil: "blocks (length (pad []) div 64) (pad []) =
     [[128, 0, 0, 0, 0, 0, 0, 0, 0, 0, 0, 0, 0, 0, 0, 0, 0, 0, 0, 0, 0, 0, 0, 0, 0, 0, 0, 0, 0, 0,
     0, 0, 0, 0, 0, 0, 0, 0, 0, 0, 0, 0, 0, 0, 0, 0, 0, 0, 0, 0, 0, 0, 0, 0, 0, 0, 0, 0, 0, 0, 0,
     0, 0, 0]]"
  by (simp add: pad_Nil)

lemma schedule_pad_Nil: "schedule
     [128, 0, 0, 0, 0, 0, 0, 0, 0, 0, 0, 0, 0, 0, 0, 0, 0, 0, 0, 0, 0, 0, 0, 0, 0, 0, 0, 0, 0, 0,
     0, 0, 0, 0, 0, 0, 0, 0, 0, 0, 0, 0, 0, 0, 0, 0, 0, 0, 0, 0, 0, 0, 0, 0, 0, 0, 0, 0, 0, 0, 0,
     0, 0, 0] =
     [2147483648, 0, 0, 0, 0, 0, 0, 0, 0, 0, 0, 0, 0, 0, 0, 0, 2147483648, 0, 2117632, 0,
     570427392, 0, 84448578, 2147483648, 1476919296, 4235264, 1451269, 1711282176, 3592562048,
     337794312, 3594910044, 3374850048, 3287351444, 676112230, 109604294, 2742808854, 1904000662,
     4274181962, 2813755136, 2165675682, 2561075048, 62000258, 1562224585, 2975250741,
     3286092305, 614207615, 3297584367, 1575308336, 3741240933, 748767245, 1008022316, 30329261,
     369937616, 195877528, 907775968, 3526495142, 43741191, 1967544444, 133517113, 4161330627,
     3704256008, 1581412744, 1153231965, 996066459]"
  by (simp add: schedule_def upt_rec be32_def expand_numeral add32_def ssig0_def ssig1_def
      rotr_def shr_def)

lemma rounds_Nil: "foldl round256 H0 (zip K256
     [2147483648, 0, 0, 0, 0, 0, 0, 0, 0, 0, 0, 0, 0, 0, 0, 0, 2147483648, 0, 2117632, 0,
     570427392, 0, 84448578, 2147483648, 1476919296, 4235264, 1451269, 1711282176, 3592562048,
     337794312, 3594910044, 3374850048, 3287351444, 676112230, 109604294, 2742808854, 1904000662,
     4274181962, 2813755136, 2165675682, 2561075048, 62000258, 1562224585, 2975250741,
     3286092305, 614207615, 3297584367, 1575308336, 3741240933, 748767245, 1008022316, 30329261,
     369937616, 195877528, 907775968, 3526495142, 43741191, 1967544444, 133517113, 4161330627,
     3704256008, 1581412744, 1153231965, 996066459]) =
     (2040978907, 3717492111, 1586299222, 4095722474, 3600805733, 3382061760, 2232532848,
      477227836)"
  by (simp add: H0_def K256_def Let_def bsig0_def bsig1_def ch_def maj_def rotr_def add32_def
      not32_def)

lemma sha256_Nil: "sha256 [] =
     [227, 176, 196, 66, 152, 252, 28, 20, 154, 251, 244, 200, 153, 111, 185, 36, 39, 174, 65,
     228, 100, 155, 147, 76, 164, 149, 153, 27, 120, 82, 184, 85]"
  by (simp add: sha256_def blocks_pad_Nil compress_def schedule_pad_Nil rounds_Nil)
     (simp add: H0_def add32_def wordBytes_def)

lemma hash_Nil:
  "generateHashFromArray [] = ''e3b0c44298fc1c149afbf4c8996fb92427ae41e4649b934ca495991b7852b855''"
  by (simp add: generateHashFromArray_def join_def encode_def sha256_Nil hashHex_def padStart_def
      toString.simps digitChar_def)

subsection \<open>A known answer\<close>

text \<open>
  The digest of the three bytes of \<^verbatim>\<open>abc\<close>, the first example of the standard, evaluated in
  the same stages; the key of the file names \<^verbatim>\<open>a\<close> and \<^verbatim>\<open>bc\<close> is its rendering.
\<close>

lemma pad_abc: "pad [97, 98, 99] =
     [97, 98, 99, 128, 0, 0, 0, 0, 0, 0, 0, 0, 0, 0, 0, 0, 0, 0, 0, 0, 0, 0, 0, 0, 0, 0, 0, 0, 0,
     0, 0, 0, 0, 0, 0, 0, 0, 0, 0, 0, 0, 0, 0, 0, 0, 0, 0, 0, 0, 0, 0, 0, 0, 0, 0, 0, 0, 0, 0, 0,
     0, 0, 0, 24]"
  by (simp add: pad_def lengthBytes_def replicate_numeral upt_rec)

lemma blocks_pad_abc: "blocks (length (pad [97, 98, 99]) div 64) (pad [97, 98, 99]) =
     [[97, 98, 99, 128, 0, 0, 0, 0, 0, 0, 0, 0, 0, 0, 0, 0, 0, 0, 0, 0, 0, 0, 0, 0, 0, 0, 0, 0, 0,
     0, 0, 0, 0, 0, 0, 0, 0, 0, 0, 0, 0, 0, 0, 0, 0, 0, 0, 0, 0, 0, 0, 0, 0, 0, 0, 0, 0, 0, 0, 0,
     0, 0, 0, 24]]"
  by (simp add: pad_abc)

lemma schedule_pad_abc: "schedule
     [97, 98, 99, 128, 0, 0, 0, 0, 0, 0, 0, 0, 0, 0, 0, 0, 0, 0, 0, 0, 0, 0, 0, 0, 0, 0, 0, 0, 0,
     0, 0, 0, 0, 0, 0, 0, 0, 0, 0, 0, 0, 0, 0, 0, 0, 0, 0, 0, 0, 0, 0, 0, 0, 0, 0, 0, 0, 0, 0, 0,
     0, 0, 0, 24] =
     [1633837952, 0, 0, 0, 0, 0, 0, 0, 0, 0, 0, 0, 0, 0, 0, 24, 1633837952, 983040, 2108187653,
     1610613702, 1050508152, 25426944, 316456923, 3806512014, 3357629466, 3073800610, 3854317833,
     845560923, 2636160359, 3968280267, 1881225380, 3552024379, 2482346367, 996719219,
     2952069057, 4043988066, 176896406, 1924104970, 2483675966, 610538786, 2672279444,
     4037431130, 1042573945, 657669027, 206005234, 2215296807, 2049510749, 106709978, 4215179723,
     3430291419, 3118885940, 2845390439, 2226839261, 3256115900, 344409900, 2987358873,
     4015503821, 3957764664, 2682456414, 2025622859, 2755645205, 1720397816, 4004225740,
     313650667]"
  by (simp add: schedule_def upt_rec be32_def expand_numeral add32_def ssig0_def ssig1_def
      rotr_def shr_def)

lemma rounds_abc: "foldl round256 H0 (zip K256
     [1633837952, 0, 0, 0, 0, 0, 0, 0, 0, 0, 0, 0, 0, 0, 0, 24, 1633837952, 983040, 2108187653,
     1610613702, 1050508152, 25426944, 316456923, 3806512014, 3357629466, 3073800610, 3854317833,
     845560923, 2636160359, 3968280267, 1881225380, 3552024379, 2482346367, 996719219,
     2952069057, 4043988066, 176896406, 1924104970, 2483675966, 610538786, 2672279444,
     4037431130, 1042573945, 657669027, 206005234, 2215296807, 2049510749, 106709978, 4215179723,
     3430291419, 3118885940, 2845390439, 2226839261, 3256115900, 344409900, 2987358873,
     4015503821, 3957764664, 2682456414, 2025622859, 2755645205, 1720397816, 4004225740,
     313650667]) =
     (1349398616, 3550093669, 80891244, 3093179625, 1593118500, 4212265488, 2492278198,
      2518632596)"
  by (simp add: H0_def K256_def Let_def bsig0_def bsig1_def ch_def maj_def rotr_def add32_def
      not32_def)

lemma sha256_abc: "sha256 [97, 98, 99] =
     [186, 120, 22, 191, 143, 1, 207, 234, 65, 65, 64, 222, 93, 174, 34, 35, 176, 3, 97, 163,
     150, 23, 122, 156, 180, 16, 255, 97, 242, 0, 21, 173]"
  by (simp add: sha256_def blocks_pad_abc compress_def schedule_pad_abc rounds_abc)
     (simp add: H0_def add32_def wordBytes_def)

lemma encode_abc: "encode (join [''a'', ''bc'']) = [97, 98, 99]"
  by (simp add: encode_def join_def)

lemma hash_abc:
  "generateHashFromArray [''a'', ''bc''] = ''ba7816bf8f01cfea414140de5dae2223b00361a396177a9cb410ff61f20015ad''"
  by (simp add: generateHashFromArray_def encode_abc sha256_abc hashHex_def padStart_def
      toString.simps digitChar_def)

section \<open>The retry loop and the downloads\<close>

lemma tryFetchBody_eq:
  "tryFetchBody input w =
     (bodyOf (net w input (count_list (trace w) (Fetch input))),
      w\<lparr>trace := trace w @ [Fetch input]\<rparr>)"
  by (simp add: tryFetchBody_def fetch_def bodyOf_def split: outcome.splits)

lemma fetchBodyFrom_spec:
  "fetchBodyFrom input rc rep w = (r, w') \<Longrightarrow>
     \<exists>n. n \<le> rc - rep \<and> w' = w\<lparr>trace := trace w @ replicate n (Fetch input)\<rparr>
       \<and> (case r of
             Inr b \<Rightarrow> \<exists>m. n = Suc m
               \<and> (\<forall>i < m. bodyOf (net w input (count_list (trace w) (Fetch input) + i)) = None)
               \<and> bodyOf (net w input (count_list (trace w) (Fetch input) + m)) = Some b
           | Inl e \<Rightarrow> n = rc - rep
               \<and> (\<forall>i < n. bodyOf (net w input (count_list (trace w) (Fetch input) + i)) = None)
               \<and> e = Error (''Failed to fetch body after '' @ toString 10 rc @ '' attempts''))"
proof (induction input rc rep w arbitrary: r w' rule: fetchBodyFrom.induct)
  case (1 input rc rep w)
  let ?k = "count_list (trace w) (Fetch input)"
  let ?w1 = "w\<lparr>trace := trace w @ [Fetch input]\<rparr>"
  show ?case
  proof (cases "rep < rc")
    case False
    with "1.prems" have "r = Inl (Error (''Failed to fetch body after '' @ toString 10 rc @ '' attempts''))"
      and "w' = w"
      by (simp_all add: fetchBodyFrom.simps [of input rc rep w])
    with False show ?thesis
      by (intro exI [of _ 0]) simp
  next
    case True
    show ?thesis
    proof (cases "bodyOf (net w input ?k)")
      case (Some b)
      with True "1.prems" have "r = Inr b" and "w' = ?w1"
        by (simp_all add: fetchBodyFrom.simps [of input rc rep w] tryFetchBody_eq)
      with True Some show ?thesis
        by (intro exI [of _ 1]) simp
    next
      case None
      with True "1.prems" have run: "fetchBodyFrom input rc (Suc rep) ?w1 = (r, w')"
        by (simp add: fetchBodyFrom.simps [of input rc rep w] tryFetchBody_eq)
      have try1: "tryFetchBody input w = (None, ?w1)"
        using None by (simp add: tryFetchBody_eq)
      have k1: "count_list (trace ?w1) (Fetch input) = Suc ?k"
        by simp
      from "1.IH" [OF True try1 [symmetric] refl run]
      obtain n where n: "n \<le> rc - Suc rep"
        "w' = ?w1\<lparr>trace := trace ?w1 @ replicate n (Fetch input)\<rparr>"
        "case r of
             Inr b \<Rightarrow> \<exists>m. n = Suc m
               \<and> (\<forall>i < m. bodyOf (net ?w1 input (count_list (trace ?w1) (Fetch input) + i)) = None)
               \<and> bodyOf (net ?w1 input (count_list (trace ?w1) (Fetch input) + m)) = Some b
           | Inl e \<Rightarrow> n = rc - Suc rep
               \<and> (\<forall>i < n. bodyOf (net ?w1 input (count_list (trace ?w1) (Fetch input) + i)) = None)
               \<and> e = Error (''Failed to fetch body after '' @ toString 10 rc @ '' attempts'')"
        by blast
      have shift: "\<forall>i < Suc m. bodyOf (net w input (?k + i)) = None"
        if "\<forall>i < m. bodyOf (net w input (Suc ?k + i)) = None" for m
      proof (intro allI impI)
        fix i assume "i < Suc m"
        show "bodyOf (net w input (?k + i)) = None"
        proof (cases i)
          case 0
          with None show ?thesis by simp
        next
          case (Suc j)
          with \<open>i < Suc m\<close> that show ?thesis by simp
        qed
      qed
      have a: "Suc n \<le> rc - rep"
        using n(1) True by simp
      have b: "w' = w\<lparr>trace := trace w @ replicate (Suc n) (Fetch input)\<rparr>"
        using n(2) by (simp add: replicate_app_Cons_same)
      have c: "case r of
             Inr b \<Rightarrow> \<exists>m. Suc n = Suc m
               \<and> (\<forall>i < m. bodyOf (net w input (?k + i)) = None)
               \<and> bodyOf (net w input (?k + m)) = Some b
           | Inl e \<Rightarrow> Suc n = rc - rep
               \<and> (\<forall>i < Suc n. bodyOf (net w input (?k + i)) = None)
               \<and> e = Error (''Failed to fetch body after '' @ toString 10 rc @ '' attempts'')"
      proof (cases r)
        case (Inr body)
        with n(3) obtain m where m: "n = Suc m"
          "\<forall>i < m. bodyOf (net w input (Suc ?k + i)) = None"
          "bodyOf (net w input (Suc ?k + m)) = Some body"
          by (auto simp: k1)
        from shift [OF m(2)] m(1) have "\<forall>i < n. bodyOf (net w input (?k + i)) = None"
          by simp
        moreover from m(1,3) have "bodyOf (net w input (?k + n)) = Some body"
          by simp
        ultimately show ?thesis using Inr by simp
      next
        case (Inl e)
        with n(3) have eq: "n = rc - Suc rep"
          and f: "\<forall>i < n. bodyOf (net w input (Suc ?k + i)) = None"
          and e: "e = Error (''Failed to fetch body after '' @ toString 10 rc @ '' attempts'')"
          by (simp_all add: k1)
        from eq True have "Suc n = rc - rep" by simp
        with shift [OF f] e Inl show ?thesis by simp
      qed
      from a b c show ?thesis by blast
    qed
  qed
qed

lemma toString_5: "toString 10 5 = ''5''"
  by (simp add: toString.simps [of 10 5] digitChar_def)

lemma fetchBody_spec:
  assumes "fetchBody input 5 w = (r, w')"
  shows "\<exists>n. n \<le> 5 \<and> w' = w\<lparr>trace := trace w @ replicate n (Fetch input)\<rparr>
       \<and> (case r of
             Inr b \<Rightarrow> \<exists>m. n = Suc m
               \<and> (\<forall>i < m. bodyOf (net w input (count_list (trace w) (Fetch input) + i)) = None)
               \<and> bodyOf (net w input (count_list (trace w) (Fetch input) + m)) = Some b
           | Inl e \<Rightarrow> n = 5
               \<and> (\<forall>i < 5. bodyOf (net w input (count_list (trace w) (Fetch input) + i)) = None)
               \<and> e = Error ''Failed to fetch body after 5 attempts'')"
proof -
  from assms have "fetchBodyFrom input 5 0 w = (r, w')"
    by (simp add: fetchBody_def)
  from fetchBodyFrom_spec [OF this] obtain n where n: "n \<le> 5"
    "w' = w\<lparr>trace := trace w @ replicate n (Fetch input)\<rparr>"
    "case r of
             Inr b \<Rightarrow> \<exists>m. n = Suc m
               \<and> (\<forall>i < m. bodyOf (net w input (count_list (trace w) (Fetch input) + i)) = None)
               \<and> bodyOf (net w input (count_list (trace w) (Fetch input) + m)) = Some b
           | Inl e \<Rightarrow> n = 5 - 0
               \<and> (\<forall>i < n. bodyOf (net w input (count_list (trace w) (Fetch input) + i)) = None)
               \<and> e = Error (''Failed to fetch body after '' @ toString 10 5 @ '' attempts'')"
    by auto
  from n(3) have "case r of
             Inr b \<Rightarrow> \<exists>m. n = Suc m
               \<and> (\<forall>i < m. bodyOf (net w input (count_list (trace w) (Fetch input) + i)) = None)
               \<and> bodyOf (net w input (count_list (trace w) (Fetch input) + m)) = Some b
           | Inl e \<Rightarrow> n = 5
               \<and> (\<forall>i < 5. bodyOf (net w input (count_list (trace w) (Fetch input) + i)) = None)
               \<and> e = Error ''Failed to fetch body after 5 attempts''"
    by (cases r) (simp_all add: toString_5)
  with n(1,2) show ?thesis by blast
qed

lemma fetchBody_frame:
  "fetchBody input 5 w = (r, w') \<Longrightarrow> \<exists>n. n \<le> 5 \<and> w' = w\<lparr>trace := trace w @ replicate n (Fetch input)\<rparr>"
  using fetchBody_spec by blast



lemma downloadAll_frame:
  "downloadAll url path fl archive res w = (r, res', w') \<Longrightarrow>
     \<exists>x fs tr. res' = res\<lparr>written := x\<rparr> \<and> w' = w\<lparr>files := fs, trace := trace w @ tr\<rparr>
        \<and> (x = written res \<or> (\<exists>es. x = Some (Archive es False)))
        \<and> (\<forall>p. p \<noteq> path \<longrightarrow> fs p = files w p)
        \<and> (\<forall>ev \<in> set tr. \<exists>f \<in> set fl. ev = Fetch (url f) \<or> ev = Append f)"
proof (induction fl arbitrary: archive res w)
  case Nil
  then have "res' = res\<lparr>written := written res\<rparr>" and "w' = w\<lparr>files := files w, trace := trace w @ []\<rparr>"
    by simp_all
  then show ?case by (metis empty_iff list.set(1))
next
  case (Cons f0 rest)
  obtain r1 w1 where f: "fetchBody (url f0) 5 w = (r1, w1)"
    by fastforce
  from fetchBody_frame [OF f] obtain n where
    w1: "w1 = w\<lparr>trace := trace w @ replicate n (Fetch (url f0))\<rparr>" by blast
  show ?case
  proof (cases r1)
    case (Inl e)
    with Cons.prems f have "res' = res\<lparr>written := written res\<rparr>"
      and "w' = w\<lparr>files := files w, trace := trace w @ replicate n (Fetch (url f0))\<rparr>"
      by (simp_all add: w1)
    moreover have "\<forall>ev \<in> set (replicate n (Fetch (url f0))).
        \<exists>f \<in> set (f0 # rest). ev = Fetch (url f) \<or> ev = Append f"
      by auto
    ultimately show ?thesis by blast
  next
    case (Inr b)
    let ?a = "archive @ [(f0, b)]"
    let ?res2 = "res\<lparr>written := Some (Archive ?a False)\<rparr>"
    let ?w2 = "w1\<lparr>files := (files w1)(path \<mapsto> Archive ?a False), trace := trace w1 @ [Append f0]\<rparr>"
    from Cons.prems f Inr have "downloadAll url path rest ?a ?res2 ?w2 = (r, res', w')"
      by simp
    from Cons.IH [OF this] obtain x fs tr where ih:
      "res' = ?res2\<lparr>written := x\<rparr>" "w' = ?w2\<lparr>files := fs, trace := trace ?w2 @ tr\<rparr>"
      "x = written ?res2 \<or> (\<exists>es. x = Some (Archive es False))"
      "\<forall>p. p \<noteq> path \<longrightarrow> fs p = files ?w2 p"
      "\<forall>ev \<in> set tr. \<exists>f \<in> set rest. ev = Fetch (url f) \<or> ev = Append f"
      by blast
    let ?tr = "replicate n (Fetch (url f0)) @ [Append f0] @ tr"
    have "res' = res\<lparr>written := x\<rparr>"
      using ih(1) by simp
    moreover have "w' = w\<lparr>files := fs, trace := trace w @ ?tr\<rparr>"
      using ih(2) by (simp add: w1)
    moreover have "x = written res \<or> (\<exists>es. x = Some (Archive es False))"
      using ih(3) by auto
    moreover have "\<forall>p. p \<noteq> path \<longrightarrow> fs p = files w p"
      using ih(4) by (simp add: w1)
    moreover have "\<forall>ev \<in> set ?tr. \<exists>f \<in> set (f0 # rest). ev = Fetch (url f) \<or> ev = Append f"
      using ih(5) by auto
    ultimately show ?thesis by blast
  qed
qed



section \<open>The two branches and the \<^verbatim>\<open>try\<close> block\<close>

lemma downloadAll_fields:
  assumes "downloadAll url path fl archive res w = (r, res', w')"
  shows "net w' = net w" "throws w' = throws w" "dirs w' = dirs w" "pending w' = pending w"
    "statusCode res' = statusCode res" "headers res' = headers res"
    "headersSent res' = headersSent res" "piping res' = piping res"
    "writableEnded res' = writableEnded res" "destroyed res' = destroyed res"
    "written res' = written res \<or> (\<exists>es. written res' = Some (Archive es False))"
    "\<forall>p. p \<noteq> path \<longrightarrow> files w' p = files w p"
    "\<forall>ev \<in> set (trace w'). ev \<in> set (trace w) \<or> (\<exists>f \<in> set fl. ev = Fetch (url f) \<or> ev = Append f)"
proof -
  from downloadAll_frame [OF assms] obtain x fs tr where
    *: "res' = res\<lparr>written := x\<rparr>" "w' = w\<lparr>files := fs, trace := trace w @ tr\<rparr>"
       "x = written res \<or> (\<exists>es. x = Some (Archive es False))"
       "\<forall>p. p \<noteq> path \<longrightarrow> fs p = files w p"
       "\<forall>ev \<in> set tr. \<exists>f \<in> set fl. ev = Fetch (url f) \<or> ev = Append f"
    by blast
  show "net w' = net w" "throws w' = throws w" "dirs w' = dirs w" "pending w' = pending w"
    "statusCode res' = statusCode res" "headers res' = headers res"
    "headersSent res' = headersSent res" "piping res' = piping res"
    "writableEnded res' = writableEnded res" "destroyed res' = destroyed res"
    by (simp_all add: *(1,2))
  show "written res' = written res \<or> (\<exists>es. written res' = Some (Archive es False))"
    using *(3) by (simp add: *(1))
  show "\<forall>p. p \<noteq> path \<longrightarrow> files w' p = files w p"
    using *(4) by (simp add: *(2))
  show "\<forall>ev \<in> set (trace w'). ev \<in> set (trace w) \<or> (\<exists>f \<in> set fl. ev = Fetch (url f) \<or> ev = Append f)"
    using *(5) by (auto simp: *(2))
qed

lemmas cacheMiss_defs = cacheMiss_def sendZIPFile_def makeDir_def createWriteStream_def
  finalize_def Let_def writeHead_def

lemma cacheMiss_dirs:
  "cacheMiss url asset path fl res w = (r, res', w') \<Longrightarrow> dirs w' \<subseteq> insert ''noname'' (dirs w)"
  by (auto simp: cacheMiss_defs split: option.splits sum.splits prod.splits if_splits
      dest: downloadAll_fields(3))

lemma cacheMiss_destroyed:
  "cacheMiss url asset path fl res w = (r, res', w') \<Longrightarrow> destroyed res' = destroyed res"
  by (auto simp: cacheMiss_defs split: option.splits sum.splits prod.splits if_splits
      dest: downloadAll_fields(10))

lemma cacheMiss_trace:
  "cacheMiss url asset path fl res w = (r, res', w') \<Longrightarrow> ev \<in> set (trace w') \<Longrightarrow>
     ev \<in> set (trace w) \<or> ev = Archiver \<or> ev = Mkdir ''noname'' \<or> ev = CreateWriteStream path
       \<or> ev = Finalize \<or> (\<exists>f \<in> set fl. ev = Fetch (url f) \<or> ev = Append f)"
  by (auto simp: cacheMiss_defs split: option.splits sum.splits prod.splits if_splits
      dest!: downloadAll_fields(13))

lemma cacheMiss_Inl_ended:
  "cacheMiss url asset path fl res w = (Inl e, res', w') \<Longrightarrow> writableEnded res' = writableEnded res"
  by (auto simp: cacheMiss_defs split: option.splits sum.splits prod.splits if_splits
      dest: downloadAll_fields(9))

lemma cacheMiss_Inl_written:
  "cacheMiss url asset path fl res w = (Inl e, res', w') \<Longrightarrow>
     written res' = written res \<or> (\<exists>es. written res' = Some (Archive es False))"
  by (auto simp: cacheMiss_defs split: option.splits sum.splits prod.splits if_splits
      dest: downloadAll_fields(11))

lemma cacheMiss_Inl_headersSent:
  "cacheMiss url asset path fl res w = (Inl e, res', w') \<Longrightarrow>
     headersSent res' = (headersSent res \<or> throws w AtWriteHead = None)"
  by (auto simp: cacheMiss_defs split: option.splits sum.splits prod.splits if_splits
      dest: downloadAll_fields(7))



lemma resolveVersion_world:
  "resolveVersion version owner repo w = (x, w0) \<Longrightarrow>
     w0 = w \<or> w0 = w\<lparr>trace := trace w @ [Fetch (tagsUrl owner repo)]\<rparr>"
  by (auto simp: resolveVersion_def getLatestVersionFromGitHub_def fetch_def
      split: if_splits outcome.splits option.splits)

lemma resolveVersion_fields:
  assumes "resolveVersion version owner repo w = (x, w0)"
  shows "net w0 = net w" "throws w0 = throws w" "files w0 = files w" "dirs w0 = dirs w"
    "pending w0 = pending w" "isExist p w0 = isExist p w"
    "ev \<in> set (trace w0) \<Longrightarrow> ev \<in> set (trace w) \<or> ev = Fetch (tagsUrl owner repo)"
  using resolveVersion_world [OF assms] by (auto simp: isExist_def)

lemma tryBlock_cases:
  assumes "tryBlock req res w = (r, asset, path, res1, w1)"
  obtains (unresolved) e where
      "resolveVersion (noname_version (noname req)) (orElse (noname_owner (noname req)) ''libccy'')
         (orElse (noname_repo (noname req)) ''noname'') w = (Inl e, w1)"
      "r = Inl e" "asset = []" "path = []" "res1 = res"
  | (hit) v w0 where
      "resolveVersion (noname_version (noname req)) (orElse (noname_owner (noname req)) ''libccy'')
         (orElse (noname_repo (noname req)) ''noname'') w = (Inr v, w0)"
      "asset = assetName (orElse (noname_owner (noname req)) ''libccy'')
         (orElse (noname_repo (noname req)) ''noname'') v
         (generateHashFromArray (noname_fileList (noname req)))"
      "path = pathJoin ''noname'' asset" "isExist path w"
      "cacheHit asset path res w0 = (r, res1, w1)"
  | (miss) v w0 where
      "resolveVersion (noname_version (noname req)) (orElse (noname_owner (noname req)) ''libccy'')
         (orElse (noname_repo (noname req)) ''noname'') w = (Inr v, w0)"
      "asset = assetName (orElse (noname_owner (noname req)) ''libccy'')
         (orElse (noname_repo (noname req)) ''noname'') v
         (generateHashFromArray (noname_fileList (noname req)))"
      "path = pathJoin ''noname'' asset" "\<not> isExist path w"
      "cacheMiss (rawUrl (orElse (noname_owner (noname req)) ''libccy'')
         (orElse (noname_repo (noname req)) ''noname'') v) asset path
         (noname_fileList (noname req)) res w0 = (r, res1, w1)"
proof -
  let ?o = "orElse (noname_owner (noname req)) ''libccy''"
  let ?r = "orElse (noname_repo (noname req)) ''noname''"
  obtain x w0 where rv: "resolveVersion (noname_version (noname req)) ?o ?r w = (x, w0)"
    by fastforce
  show thesis
  proof (cases x)
    case (Inl e)
    with assms rv have "r = Inl e" "asset = []" "path = []" "res1 = res" "w1 = w0"
      by (simp_all add: tryBlock_def)
    with rv Inl unresolved show thesis by blast
  next
    case (Inr v)
    let ?asset = "assetName ?o ?r v (generateHashFromArray (noname_fileList (noname req)))"
    let ?path = "pathJoin ''noname'' ?asset"
    from assms rv Inr have a: "asset = ?asset" and p: "path = ?path"
      by (auto simp: tryBlock_def Let_def split: if_splits prod.splits)
    have ex: "isExist ?path w0 = isExist ?path w"
      using resolveVersion_fields(6) [OF rv] .
    show thesis
    proof (cases "isExist ?path w")
      case True
      with assms rv Inr ex have "cacheHit ?asset ?path res w0 = (r, res1, w1)"
        by (simp add: tryBlock_def Let_def split: prod.splits)
      with rv Inr a p True hit show thesis by blast
    next
      case False
      with assms rv Inr ex
      have "cacheMiss (rawUrl ?o ?r v) ?asset ?path (noname_fileList (noname req)) res w0
              = (r, res1, w1)"
        by (simp add: tryBlock_def Let_def split: prod.splits)
      with rv Inr a p False miss show thesis by blast
    qed
  qed
qed

lemma assetName_nonempty: "assetName owner repo version key \<noteq> []"
  by (simp add: assetName_def replaceUnsafe_def)

lemma path_not_dir: "pathJoin ''noname'' asset \<noteq> ''noname''"
  by (simp add: pathJoin_def)

lemma files_unlinked:
  "files (foldl unlinkFile w ps) p = (if p \<in> set ps then None else files w p)"
  by (induction ps arbitrary: w) (auto simp: unlinkFile_def)

lemma dirs_unlinked: "dirs (foldl unlinkFile w ps) = dirs w"
  by (induction ps arbitrary: w) (auto simp: unlinkFile_def)

lemma cacheHit_Inl:
  "cacheHit asset path res w = (Inl e, res1, w1) \<Longrightarrow>
     w1 = w \<and> (throws w AtWriteHead = Some e \<and> res1 = res
        \<or> throws w AtWriteHead = None \<and> throws w AtCreateReadStream = Some e
            \<and> res1 = writeHead 200 (zipHeaders asset) res)"
  by (auto simp: cacheHit_def sendZIPFile_def split: option.splits)

lemma cacheHit_Inr:
  "cacheHit asset path res w = (Inr u, res1, w1) \<Longrightarrow>
     throws w AtWriteHead = None \<and> throws w AtCreateReadStream = None
     \<and> res1 = (writeHead 200 (zipHeaders asset) res)\<lparr>piping := Some path\<rparr>
     \<and> w1 = w\<lparr>trace := trace w @ [CreateReadStream path]\<rparr>"
  by (auto simp: cacheHit_def sendZIPFile_def split: option.splits)

section \<open>The \<^verbatim>\<open>catch\<close> block\<close>

lemma listener_Inl:
  "req_method req = ''POST'' \<Longrightarrow> noname_action (noname req) = ''downloadAssets'' \<Longrightarrow>
   tryBlock req res w = (Inl e, asset, path, res1, w1) \<Longrightarrow>
   nonameRequestListener req res w = catch e asset path res1 w1"
  by (simp add: nonameRequestListener_def)

lemma listener_Inr:
  "req_method req = ''POST'' \<Longrightarrow> noname_action (noname req) = ''downloadAssets'' \<Longrightarrow>
   tryBlock req res w = (Inr u, asset, path, res1, w1) \<Longrightarrow>
   nonameRequestListener req res w = (res1, w1)"
  by (simp add: nonameRequestListener_def)

lemma catch_world:
  "asset \<noteq> [] \<Longrightarrow> snd (catch e asset path res w)
     = w\<lparr>trace := trace w @ [ConsoleError e, Unlink path], pending := pending w @ [path]\<rparr>"
  by (simp add: catch_def Let_def)

lemma catch_response:
  "fst (catch e asset path res w)
     = (if headersSent res then destroy res else endResponse (writeHead 500 [] res))"
  by (simp add: catch_def Let_def)

lemma settle_files:
  "files (snd (settle s)) p = (if p \<in> set (pending (snd s)) then None else files (snd s) p)"
  by (cases s) (simp add: settle_def Let_def files_unlinked split: option.splits)

lemma settle_dirs: "dirs (snd (settle s)) = dirs (snd s)"
  by (cases s) (simp add: settle_def Let_def dirs_unlinked split: option.splits)

text \<open>
  Claim C9. When an error is thrown in the \<^verbatim>\<open>try\<close> block after the artifact name has been
  assigned, that is, after version resolution has succeeded, the listener calls \<^verbatim>\<open>unlink\<close> on
  the cache path as its last action, in whichever branch the error arose. It returns with the
  unlink outstanding: the files are as the \<^verbatim>\<open>try\<close> block left them, so in the cache-hit
  branch the completed entry is still there at the return, and it is gone once the unlink
  completes.
\<close>

theorem unlink_started_not_awaited:
  assumes "req_method req = ''POST''" and "noname_action (noname req) = ''downloadAssets''"
    and "resolveVersion (noname_version (noname req)) (orElse (noname_owner (noname req)) ''libccy'')
           (orElse (noname_repo (noname req)) ''noname'') w = (Inr v, w0)"
    and "tryBlock req res w = (Inl e, asset, path, res1, w1)"
  shows "asset = assetName (orElse (noname_owner (noname req)) ''libccy'')
           (orElse (noname_repo (noname req)) ''noname'') v
           (generateHashFromArray (noname_fileList (noname req)))
    \<and> path = pathJoin ''noname'' asset
    \<and> snd (nonameRequestListener req res w)
        = w1\<lparr>trace := trace w1 @ [ConsoleError e, Unlink path], pending := pending w1 @ [path]\<rparr>
    \<and> (isExist path w \<longrightarrow> files (snd (nonameRequestListener req res w)) = files w)
    \<and> files (snd (settle (nonameRequestListener req res w))) path = None"
proof -
  from assms(4) have ap: "asset = assetName (orElse (noname_owner (noname req)) ''libccy'')
           (orElse (noname_repo (noname req)) ''noname'') v
           (generateHashFromArray (noname_fileList (noname req)))
      \<and> path = pathJoin ''noname'' asset \<and> (isExist path w \<longrightarrow> files w1 = files w)"
  proof (cases rule: tryBlock_cases)
    case (unresolved e')
    with assms(3) show ?thesis by simp
  next
    case (hit v' w0')
    with assms(3) have "v' = v" "w0' = w0" by simp_all
    moreover from hit(5) cacheHit_Inl have "w1 = w0'" by blast
    moreover from resolveVersion_fields(3) [OF assms(3)] have "files w0 = files w" .
    ultimately show ?thesis using hit by simp
  next
    case (miss v' w0')
    with assms(3) have "v' = v" by simp
    with miss show ?thesis by simp
  qed
  then have ne: "asset \<noteq> []"
    by (simp add: assetName_nonempty)
  have l: "nonameRequestListener req res w = catch e asset path res1 w1"
    using listener_Inl [OF assms(1,2,4)] .
  have w': "snd (nonameRequestListener req res w)
        = w1\<lparr>trace := trace w1 @ [ConsoleError e, Unlink path], pending := pending w1 @ [path]\<rparr>"
    unfolding l using catch_world [OF ne] .
  have "files (snd (settle (nonameRequestListener req res w))) path = None"
    by (simp add: settle_files w')
  with ap w' show ?thesis by simp
qed

theorem unlink_started_not_awaited_witness:
  "isExist (pathJoin ''noname'' (assetName ''libccy'' ''noname'' ''v1'' (generateHashFromArray []))) hitWorld
   \<and> pending (snd (nonameRequestListener (pinnedRequest []) newResponse hitWorld))
       = [pathJoin ''noname'' (assetName ''libccy'' ''noname'' ''v1'' (generateHashFromArray []))]
   \<and> files (snd (nonameRequestListener (pinnedRequest []) newResponse hitWorld)) = files hitWorld
   \<and> files (snd (settle (nonameRequestListener (pinnedRequest []) newResponse hitWorld)))
        (pathJoin ''noname'' (assetName ''libccy'' ''noname'' ''v1'' (generateHashFromArray []))) = None"
proof -
  let ?path = "pathJoin ''noname'' (assetName ''libccy'' ''noname'' ''v1'' (generateHashFromArray []))"
  have ex: "isExist ?path hitWorld"
    by (simp add: isExist_def hitWorld_def)
  have a: "req_method (pinnedRequest []) = ''POST''"
    and b: "noname_action (noname (pinnedRequest [])) = ''downloadAssets''"
    by (simp_all add: pinnedRequest_def)
  have c: "resolveVersion (noname_version (noname (pinnedRequest [])))
      (orElse (noname_owner (noname (pinnedRequest []))) ''libccy'')
      (orElse (noname_repo (noname (pinnedRequest []))) ''noname'') hitWorld = (Inr ''v1'', hitWorld)"
    by (simp add: pinnedRequest_def resolveVersion_def orElse_def)
  have d: "tryBlock (pinnedRequest []) newResponse hitWorld
      = (Inl (Error ''Invalid character in header content''),
         assetName ''libccy'' ''noname'' ''v1'' (generateHashFromArray []), ?path, newResponse, hitWorld)"
    using ex by (simp add: tryBlock_def pinnedRequest_def resolveVersion_def orElse_def Let_def
        cacheHit_def sendZIPFile_def hitWorld_def)
  from unlink_started_not_awaited [OF a b c d] ex show ?thesis
    by (simp add: hitWorld_def pinnedRequest_def orElse_def)
qed

section \<open>Sample runs\<close>

lemma pinnedRequest_fields:
  "req_method (pinnedRequest fl) = ''POST''"
  "noname_action (noname (pinnedRequest fl)) = ''downloadAssets''"
  "noname_fileList (noname (pinnedRequest fl)) = fl"
  "resolveVersion (noname_version (noname (pinnedRequest fl)))
      (orElse (noname_owner (noname (pinnedRequest fl))) ''libccy'')
      (orElse (noname_repo (noname (pinnedRequest fl))) ''noname'') w = (Inr ''v1'', w)"
  "orElse (noname_owner (noname (pinnedRequest fl))) ''libccy'' = ''libccy''"
  "orElse (noname_repo (noname (pinnedRequest fl))) ''noname'' = ''noname''"
  by (simp_all add: pinnedRequest_def resolveVersion_def orElse_def)

lemma fetchBody_down:
  "net w = (\<lambda>u k. Rejected m) \<Longrightarrow> fetchBody input 5 w =
     (Inl (Error ''Failed to fetch body after 5 attempts''),
      w\<lparr>trace := trace w @ [Fetch input, Fetch input, Fetch input, Fetch input, Fetch input]\<rparr>)"
  by (simp add: fetchBody_def fetchBodyFrom.simps tryFetchBody_def fetch_def toString_5)


lemma latest_down:
  "resolveVersion None ''libccy'' ''noname'' downWorld
     = (Inl (Error ''fetch failed''),
        downWorld\<lparr>trace := [Fetch ''https://api.github.com/repos/libccy/noname/tags'']\<rparr>)"
  by (simp add: resolveVersion_def orElse_def getLatestVersionFromGitHub_def fetch_def
      downWorld_def tagsUrl_def)

lemma tryBlock_down:
  "tryBlock (latestRequest fl) newResponse downWorld
     = (Inl (Error ''fetch failed''), [], [], newResponse,
        downWorld\<lparr>trace := [Fetch ''https://api.github.com/repos/libccy/noname/tags'']\<rparr>)"
  by (simp add: tryBlock_def latestRequest_def orElse_def latest_down)

section \<open>The artifact name\<close>






section \<open>Cleanup after a failed build\<close>

text \<open>
  Claim C3, as amended. When the \<^verbatim>\<open>try\<close> block fails in a cache-miss build after the artifact
  name has been assigned, the listener calls \<^verbatim>\<open>unlink\<close> on the cache path as its last action
  and returns without awaiting it; once the unlink has completed, the storage location does not
  exist.
\<close>

theorem failed_build_unlinked_once_settled:
  assumes "req_method req = ''POST''" and "noname_action (noname req) = ''downloadAssets''"
    and "tryBlock req newResponse w = (Inl e, asset, path, res1, w1)"
    and "asset \<noteq> []" and "\<not> isExist path w"
  shows "(\<exists>events. trace (snd (nonameRequestListener req newResponse w)) = events @ [Unlink path])
    \<and> path \<in> set (pending (snd (nonameRequestListener req newResponse w)))
    \<and> \<not> isExist path (snd (settle (nonameRequestListener req newResponse w)))"
proof -
  let ?L = "nonameRequestListener req newResponse w"
  have l: "?L = catch e asset path res1 w1"
    using listener_Inl [OF assms(1,2,3)] .
  have w': "snd ?L = w1\<lparr>trace := trace w1 @ [ConsoleError e, Unlink path],
      pending := pending w1 @ [path]\<rparr>"
    unfolding l using catch_world [OF assms(4)] .
  from assms(3) have d: "path \<notin> dirs w1"
  proof (cases rule: tryBlock_cases)
    case (unresolved e')
    with assms(4) show ?thesis by simp
  next
    case (hit v w0)
    with assms(5) show ?thesis by simp
  next
    case (miss v w0)
    from cacheMiss_dirs [OF miss(5)] resolveVersion_fields(4) [OF miss(1)]
    have "dirs w1 \<subseteq> insert ''noname'' (dirs w)" by simp
    moreover from assms(5) have "path \<notin> dirs w" by (simp add: isExist_def)
    moreover from miss(3) have "path \<noteq> ''noname''" by (simp add: path_not_dir)
    ultimately show ?thesis by auto
  qed
  have "trace (snd ?L) = (trace w1 @ [ConsoleError e]) @ [Unlink path]"
    by (simp add: w')
  then have a: "\<exists>events. trace (snd ?L) = events @ [Unlink path]" ..
  have b: "path \<in> set (pending (snd ?L))"
    by (simp add: w')
  have "files (snd (settle ?L)) path = None"
    by (simp add: settle_files w')
  moreover have "dirs (snd (settle ?L)) = dirs w1"
    by (simp add: settle_dirs w')
  ultimately have c: "\<not> isExist path (snd (settle ?L))"
    using d by (simp add: isExist_def domIff)
  from a b c show ?thesis by blast
qed

theorem failed_build_unlinked_once_settled_witness:
  "\<not> isExist (pathJoin ''noname'' (assetName ''libccy'' ''noname'' ''v1'' (generateHashFromArray [''a.js''])))
        downWorld
   \<and> \<not> isExist (pathJoin ''noname'' (assetName ''libccy'' ''noname'' ''v1'' (generateHashFromArray [''a.js''])))
        (snd (settle (nonameRequestListener (pinnedRequest [''a.js'']) newResponse downWorld)))"
proof -
  let ?asset = "assetName ''libccy'' ''noname'' ''v1'' (generateHashFromArray [''a.js''])"
  let ?path = "pathJoin ''noname'' ?asset"
  have a: "req_method (pinnedRequest [''a.js'']) = ''POST''"
    and b: "noname_action (noname (pinnedRequest [''a.js''])) = ''downloadAssets''"
    by (simp_all add: pinnedRequest_def)
  have m: "\<not> isExist ?path downWorld"
    by (simp add: isExist_def downWorld_def)
  obtain r asset path res1 w1 where
    t: "tryBlock (pinnedRequest [''a.js'']) newResponse downWorld = (r, asset, path, res1, w1)"
    by (metis prod_cases5)
  have "r = Inl (Error ''Failed to fetch body after 5 attempts'') \<and> asset = ?asset \<and> path = ?path"
    using t m
    by (auto simp: tryBlock_def pinnedRequest_def resolveVersion_def orElse_def Let_def
        cacheMiss_defs isExist_def downWorld_def fetchBody_down split: prod.splits)
  with t have t': "tryBlock (pinnedRequest [''a.js'']) newResponse downWorld
      = (Inl (Error ''Failed to fetch body after 5 attempts''), ?asset, ?path, res1, w1)"
    by simp
  from failed_build_unlinked_once_settled [OF a b t' assetName_nonempty m] m
  show ?thesis by simp
qed

text \<open>
  The claim as stated fails: the build of \<^verbatim>\<open>a.js\<close> against a remote that rejects every
  request fails, and when the listener returns the partial cache file still exists.
\<close>

theorem failed_build_present_at_return:
  "\<not> isExist (pathJoin ''noname'' (assetName ''libccy'' ''noname'' ''v1'' (generateHashFromArray [''a.js''])))
        downWorld
   \<and> destroyed (fst (nonameRequestListener (pinnedRequest [''a.js'']) newResponse downWorld))
   \<and> isExist (pathJoin ''noname'' (assetName ''libccy'' ''noname'' ''v1'' (generateHashFromArray [''a.js''])))
        (snd (nonameRequestListener (pinnedRequest [''a.js'']) newResponse downWorld))"
  by (simp add: nonameRequestListener_def tryBlock_def pinnedRequest_def resolveVersion_def
      orElse_def Let_def cacheMiss_defs isExist_def downWorld_def fetchBody_down catch_def
      newResponse_def destroy_def)

section \<open>What the caller sees of a failure\<close>

lemma cacheMiss_throwing_header:
  "throws w AtWriteHead = Some e0 \<Longrightarrow> cacheMiss url asset path fl res w = (Inl e0, res, w)"
  by (simp add: cacheMiss_def sendZIPFile_def)

lemma tryBlock_Inl_response:
  assumes "tryBlock req newResponse w = (Inl e, asset, path, res1, w1)"
  shows "\<not> writableEnded res1" "\<not> destroyed res1" "\<forall>es. written res1 \<noteq> Some (Archive es True)"
    "\<not> headersSent res1 \<Longrightarrow> res1 = newResponse"
proof -
  have "\<not> writableEnded res1 \<and> \<not> destroyed res1 \<and> (\<forall>es. written res1 \<noteq> Some (Archive es True))
      \<and> (\<not> headersSent res1 \<longrightarrow> res1 = newResponse)"
    using assms
  proof (cases rule: tryBlock_cases)
    case (unresolved e')
    then show ?thesis by (simp add: newResponse_def)
  next
    case (hit v w0)
    from cacheHit_Inl [OF hit(5)] show ?thesis
      by (auto simp: newResponse_def writeHead_def)
  next
    case (miss v w0)
    from cacheMiss_Inl_ended [OF miss(5)] cacheMiss_destroyed [OF miss(5)]
      cacheMiss_Inl_written [OF miss(5)] cacheMiss_Inl_headersSent [OF miss(5)]
    have "\<not> writableEnded res1" "\<not> destroyed res1" "\<forall>es. written res1 \<noteq> Some (Archive es True)"
      "headersSent res1 = (throws w0 AtWriteHead = None)"
      by (auto simp: newResponse_def)
    moreover have "res1 = newResponse" if "throws w0 AtWriteHead \<noteq> None"
      using that miss(5) cacheMiss_throwing_header [of w0 _ _ asset path _ newResponse] by auto
    ultimately show ?thesis by auto
  qed
  then show "\<not> writableEnded res1" "\<not> destroyed res1" "\<forall>es. written res1 \<noteq> Some (Archive es True)"
    "\<not> headersSent res1 \<Longrightarrow> res1 = newResponse"
    by simp_all
qed

text \<open>
  Claim C7, as amended. When the \<^verbatim>\<open>try\<close> block of the listener fails before the response
  head was sent, the response is status 500 with no headers and an empty body, ended normally;
  when the head was already sent, the response is destroyed, never ended and never holds a
  finalized archive. The listener only logs the error. It is \<^verbatim>\<open>getNoname\<close> that answers a
  failure with status 500 and the message of the error as the body.
\<close>

theorem failure_response:
  assumes "req_method req = ''POST''" and "noname_action (noname req) = ''downloadAssets''"
    and "tryBlock req newResponse w = (Inl e, asset, path, res1, w1)"
  shows "ConsoleError e \<in> set (trace (snd (nonameRequestListener req newResponse w)))
    \<and> (if headersSent res1
        then fst (nonameRequestListener req newResponse w) = res1\<lparr>destroyed := True\<rparr>
          \<and> \<not> writableEnded res1 \<and> (\<forall>es. written res1 \<noteq> Some (Archive es True))
        else fst (nonameRequestListener req newResponse w)
          = \<lparr>statusCode = 500, headers = [], headersSent = True, written = None, piping = None,
               writableEnded = True, destroyed = False\<rparr>)
    \<and> (noname_action nn = ''downloadAssets'' \<and> tryGetNoname nn v = (Inl e', v')
          \<longrightarrow> fst (getNoname nn v) = Response (Text (message e')) 500 [])"
proof -
  let ?L = "nonameRequestListener req newResponse w"
  have l: "?L = catch e asset path res1 w1"
    using listener_Inl [OF assms] .
  have a: "ConsoleError e \<in> set (trace (snd ?L))"
    unfolding l by (simp add: catch_def Let_def)
  have r: "fst ?L = (if headersSent res1 then destroy res1 else endResponse (writeHead 500 [] res1))"
    unfolding l by (rule catch_response)
  have b: "if headersSent res1
        then fst ?L = res1\<lparr>destroyed := True\<rparr>
          \<and> \<not> writableEnded res1 \<and> (\<forall>es. written res1 \<noteq> Some (Archive es True))
        else fst ?L
          = \<lparr>statusCode = 500, headers = [], headersSent = True, written = None, piping = None,
               writableEnded = True, destroyed = False\<rparr>"
  proof (cases "headersSent res1")
    case True
    with r tryBlock_Inl_response(1,3) [OF assms(3)] show ?thesis
      by (simp add: destroy_def)
  next
    case False
    with tryBlock_Inl_response(4) [OF assms(3)] have "res1 = newResponse" by simp
    with r False show ?thesis
      by (simp add: endResponse_def writeHead_def newResponse_def)
  qed
  have c: "noname_action nn = ''downloadAssets'' \<and> tryGetNoname nn v = (Inl e', v')
          \<longrightarrow> fst (getNoname nn v) = Response (Text (message e')) 500 []"
    by (simp add: getNoname_def)
  from a b c show ?thesis by blast
qed

theorem failure_response_witness:
  "req_method (latestRequest []) = ''POST''
   \<and> statusCode (fst (nonameRequestListener (latestRequest []) newResponse downWorld)) = 500
   \<and> fst (getNoname (noname (latestRequest [])) downWorld)
       = Response (Text ''fetch failed'') 500 []"
proof -
  have a: "req_method (latestRequest []) = ''POST''"
    and b: "noname_action (noname (latestRequest [])) = ''downloadAssets''"
    by (simp_all add: latestRequest_def)
  have t: "tryGetNoname (noname (latestRequest [])) downWorld
      = (Inl (Error ''fetch failed''),
         downWorld\<lparr>trace := [Fetch ''https://api.github.com/repos/libccy/noname/tags'']\<rparr>)"
    by (simp add: tryGetNoname_def latestRequest_def orElse_def resolveVersion_ts_def
        getLatestVersionFromGitHub_ts_def fetch_def downWorld_def tagsUrl_def Let_def)
  from failure_response [OF a b tryBlock_down, of "noname (latestRequest [])" downWorld
      "Error ''fetch failed''"] a b t
  show ?thesis by (simp add: newResponse_def)
qed

text \<open>
  The claim as stated fails for the listener: with no version named and the tag request
  rejected, the error \<^verbatim>\<open>fetch failed\<close> is logged, and the response is status 500 with an empty
  body.
\<close>

theorem failure_without_message_body:
  "fst (nonameRequestListener (latestRequest []) newResponse downWorld)
     = \<lparr>statusCode = 500, headers = [], headersSent = True, written = None, piping = None,
        writableEnded = True, destroyed = False\<rparr>
   \<and> trace (snd (nonameRequestListener (latestRequest []) newResponse downWorld))
       = [Fetch ''https://api.github.com/repos/libccy/noname/tags'',
          ConsoleError (Error ''fetch failed'')]"
proof -
  have "req_method (latestRequest []) = ''POST''"
    and "noname_action (noname (latestRequest [])) = ''downloadAssets''"
    by (simp_all add: latestRequest_def)
  from listener_Inl [OF this tryBlock_down] show ?thesis
    by (simp add: catch_def Let_def newResponse_def endResponse_def writeHead_def downWorld_def)
qed

section \<open>Retries, all or nothing\<close>








section \<open>Cache hits\<close>

lemma unlinked_fields:
  "pending (foldl unlinkFile w ps) = pending w" "throws (foldl unlinkFile w ps) = throws w"
  "net (foldl unlinkFile w ps) = net w" "trace (foldl unlinkFile w ps) = trace w"
  by (induction ps arbitrary: w) (auto simp: unlinkFile_def)

text \<open>
  Claim C4. When the cache holds an artifact under the name derived from owner, repo, version
  and key, the listener makes no request for a file and creates, fills and finalizes no
  archive: all it adds to the calls made are the tag request of version resolution, the read
  stream of the stored file and, should a local call throw, the logging and the unlink of the
  \<^verbatim>\<open>catch\<close> block. When neither \<^verbatim>\<open>writeHead\<close> nor \<^verbatim>\<open>createReadStream\<close> throws and no unlink
  of the path is in flight, it answers 200 with the ZIP headers and pipes the stored file into
  the response, which receives exactly the stored content; the store is left as it was, so a
  repeated request receives the same bytes.
\<close>

theorem cache_hit_streams_stored_artifact:
  assumes "req_method req = ''POST''" and "noname_action (noname req) = ''downloadAssets''"
    and "resolveVersion (noname_version (noname req)) (orElse (noname_owner (noname req)) ''libccy'')
           (orElse (noname_repo (noname req)) ''noname'') w = (Inr v, w0)"
    and "asset = assetName (orElse (noname_owner (noname req)) ''libccy'')
           (orElse (noname_repo (noname req)) ''noname'') v
           (generateHashFromArray (noname_fileList (noname req)))"
    and "files w (pathJoin ''noname'' asset) = Some c"
  shows "(\<forall>ev \<in> set (trace (snd (nonameRequestListener req newResponse w))).
            ev \<in> set (trace w)
            \<or> ev = Fetch (tagsUrl (orElse (noname_owner (noname req)) ''libccy'')
                   (orElse (noname_repo (noname req)) ''noname''))
            \<or> ev = CreateReadStream (pathJoin ''noname'' asset)
            \<or> (\<exists>e. ev = ConsoleError e) \<or> ev = Unlink (pathJoin ''noname'' asset))
    \<and> (throws w AtWriteHead = None \<and> throws w AtCreateReadStream = None
          \<and> pathJoin ''noname'' asset \<notin> set (pending w)
        \<longrightarrow> nonameRequestListener req newResponse w
              = (newResponse\<lparr>statusCode := 200, headers := zipHeaders asset, headersSent := True,
                   piping := Some (pathJoin ''noname'' asset)\<rparr>,
                 w0\<lparr>trace := trace w0 @ [CreateReadStream (pathJoin ''noname'' asset)]\<rparr>)
            \<and> fst (settle (nonameRequestListener req newResponse w))
              = newResponse\<lparr>statusCode := 200, headers := zipHeaders asset, headersSent := True,
                   written := Some c, writableEnded := True\<rparr>
            \<and> files (snd (settle (nonameRequestListener req newResponse w))) (pathJoin ''noname'' asset)
                = Some c
            \<and> throws (snd (settle (nonameRequestListener req newResponse w))) = throws w
            \<and> pending (snd (settle (nonameRequestListener req newResponse w))) = [])"
proof -
  let ?path = "pathJoin ''noname'' asset"
  let ?L = "nonameRequestListener req newResponse w"
  let ?tags = "Fetch (tagsUrl (orElse (noname_owner (noname req)) ''libccy'')
                   (orElse (noname_repo (noname req)) ''noname''))"
  note rv = resolveVersion_fields [OF assms(3)]
  have ex: "isExist ?path w0"
    using assms(5) rv(3) by (auto simp: isExist_def)
  have t: "tryBlock req newResponse w
      = (case cacheHit asset ?path newResponse w0 of (r, res', w') \<Rightarrow> (r, asset, ?path, res', w'))"
    using ex assms(3,4) by (simp add: tryBlock_def Let_def split: prod.splits)
  have tr0: "ev \<in> set (trace w0) \<Longrightarrow> ev \<in> set (trace w) \<or> ev = ?tags" for ev
    using rv(7) .
  have a: "\<forall>ev \<in> set (trace (snd ?L)). ev \<in> set (trace w) \<or> ev = ?tags
      \<or> ev = CreateReadStream ?path \<or> (\<exists>e. ev = ConsoleError e) \<or> ev = Unlink ?path"
  proof (cases "cacheHit asset ?path newResponse w0")
    case (fields r res1 w1)
    show ?thesis
    proof (cases r)
      case (Inl e)
      with fields t have t': "tryBlock req newResponse w = (Inl e, asset, ?path, res1, w1)" by simp
      from fields Inl cacheHit_Inl have "w1 = w0" by blast
      with listener_Inl [OF assms(1,2) t'] tr0 show ?thesis
        by (auto simp: catch_def Let_def)
    next
      case (Inr u)
      with fields t have t': "tryBlock req newResponse w = (Inr u, asset, ?path, res1, w1)" by simp
      from fields Inr cacheHit_Inr
      have "w1 = w0\<lparr>trace := trace w0 @ [CreateReadStream ?path]\<rparr>" by blast
      with listener_Inr [OF assms(1,2) t'] tr0 show ?thesis
        by auto
    qed
  qed
  have b: "?L = (newResponse\<lparr>statusCode := 200, headers := zipHeaders asset, headersSent := True,
                   piping := Some ?path\<rparr>,
                 w0\<lparr>trace := trace w0 @ [CreateReadStream ?path]\<rparr>)
            \<and> fst (settle ?L)
              = newResponse\<lparr>statusCode := 200, headers := zipHeaders asset, headersSent := True,
                   written := Some c, writableEnded := True\<rparr>
            \<and> files (snd (settle ?L)) ?path = Some c
            \<and> throws (snd (settle ?L)) = throws w
            \<and> pending (snd (settle ?L)) = []"
    if nf: "throws w AtWriteHead = None" "throws w AtCreateReadStream = None"
      and np: "?path \<notin> set (pending w)"
  proof -
    from nf rv(2) have "cacheHit asset ?path newResponse w0
        = (Inr (), (writeHead 200 (zipHeaders asset) newResponse)\<lparr>piping := Some ?path\<rparr>,
           w0\<lparr>trace := trace w0 @ [CreateReadStream ?path]\<rparr>)"
      by (simp add: cacheHit_def sendZIPFile_def)
    with t have "tryBlock req newResponse w
        = (Inr (), asset, ?path, (writeHead 200 (zipHeaders asset) newResponse)\<lparr>piping := Some ?path\<rparr>,
           w0\<lparr>trace := trace w0 @ [CreateReadStream ?path]\<rparr>)"
      by simp
    from listener_Inr [OF assms(1,2) this]
    have l: "?L = (newResponse\<lparr>statusCode := 200, headers := zipHeaders asset, headersSent := True,
                   piping := Some ?path\<rparr>,
                 w0\<lparr>trace := trace w0 @ [CreateReadStream ?path]\<rparr>)"
      by (simp add: writeHead_def)
    have f: "files (foldl unlinkFile (w0\<lparr>trace := trace w0 @ [CreateReadStream ?path], pending := []\<rparr>)
        (pending w0)) ?path = Some c"
      using np assms(5) rv(3,5) by (simp add: files_unlinked)
    show ?thesis
      unfolding l using f rv(2)
      by (simp add: settle_def Let_def unlinked_fields newResponse_def)
  qed
  from a b show ?thesis by blast
qed

theorem cache_hit_streams_stored_artifact_witness:
  "files storedWorld (pathJoin ''noname'' (assetName ''libccy'' ''noname'' ''v1'' (generateHashFromArray [''a.js''])))
     = Some (Archive [(''a.js'', [1, 2, 3])] True)
   \<and> written (fst (settle (nonameRequestListener (pinnedRequest [''a.js'']) newResponse storedWorld)))
       = Some (Archive [(''a.js'', [1, 2, 3])] True)
   \<and> written (fst (settle (nonameRequestListener (pinnedRequest [''a.js'']) newResponse
        (snd (settle (nonameRequestListener (pinnedRequest [''a.js'']) newResponse storedWorld))))))
       = Some (Archive [(''a.js'', [1, 2, 3])] True)
   \<and> trace (snd (nonameRequestListener (pinnedRequest [''a.js'']) newResponse storedWorld))
       = [CreateReadStream (pathJoin ''noname'' (assetName ''libccy'' ''noname'' ''v1''
            (generateHashFromArray [''a.js''])))]"
proof -
  let ?asset = "assetName ''libccy'' ''noname'' ''v1'' (generateHashFromArray [''a.js''])"
  let ?req = "pinnedRequest [''a.js'']"
  let ?s1 = "settle (nonameRequestListener ?req newResponse storedWorld)"
  have a: "?asset = assetName (orElse (noname_owner (noname ?req)) ''libccy'')
           (orElse (noname_repo (noname ?req)) ''noname'') ''v1''
           (generateHashFromArray (noname_fileList (noname ?req)))"
    by (simp add: pinnedRequest_fields)
  have s: "files storedWorld (pathJoin ''noname'' ?asset) = Some (Archive [(''a.js'', [1, 2, 3])] True)"
    by (simp add: storedWorld_def)
  have n: "throws storedWorld AtWriteHead = None" "throws storedWorld AtCreateReadStream = None"
    "pathJoin ''noname'' ?asset \<notin> set (pending storedWorld)"
    by (simp_all add: storedWorld_def)
  from cache_hit_streams_stored_artifact [OF pinnedRequest_fields(1,2,4) a s] n
  have first: "nonameRequestListener ?req newResponse storedWorld
        = (newResponse\<lparr>statusCode := 200, headers := zipHeaders ?asset, headersSent := True,
             piping := Some (pathJoin ''noname'' ?asset)\<rparr>,
           storedWorld\<lparr>trace := trace storedWorld @ [CreateReadStream (pathJoin ''noname'' ?asset)]\<rparr>)"
    and 1: "fst ?s1 = newResponse\<lparr>statusCode := 200, headers := zipHeaders ?asset,
        headersSent := True, written := Some (Archive [(''a.js'', [1, 2, 3])] True),
        writableEnded := True\<rparr>"
    and 2: "files (snd ?s1) (pathJoin ''noname'' ?asset) = Some (Archive [(''a.js'', [1, 2, 3])] True)"
    and 3: "throws (snd ?s1) = throws storedWorld" and 4: "pending (snd ?s1) = []"
    by blast+
  from first have 5: "trace (snd (nonameRequestListener ?req newResponse storedWorld))
       = [CreateReadStream (pathJoin ''noname'' ?asset)]"
    by (simp add: storedWorld_def)
  have n2: "throws (snd ?s1) AtWriteHead = None" "throws (snd ?s1) AtCreateReadStream = None"
    "pathJoin ''noname'' ?asset \<notin> set (pending (snd ?s1))"
    using n 3 4 by simp_all
  from cache_hit_streams_stored_artifact [OF pinnedRequest_fields(1,2,4) a 2] n2
  have "fst (settle (nonameRequestListener ?req newResponse (snd ?s1)))
      = newResponse\<lparr>statusCode := 200, headers := zipHeaders ?asset,
        headersSent := True, written := Some (Archive [(''a.js'', [1, 2, 3])] True),
        writableEnded := True\<rparr>"
    by blast
  with s 1 5 show ?thesis by simp
qed

section \<open>The empty file list\<close>

lemma tryBlock_fetches:
  assumes "tryBlock req res w = (r, asset, path, res1, w1)" and "Fetch u \<in> set (trace w1)"
  shows "Fetch u \<in> set (trace w)
    \<or> u = tagsUrl (orElse (noname_owner (noname req)) ''libccy'')
          (orElse (noname_repo (noname req)) ''noname'')
    \<or> (\<exists>v. \<exists>f \<in> set (noname_fileList (noname req)).
          u = rawUrl (orElse (noname_owner (noname req)) ''libccy'')
                (orElse (noname_repo (noname req)) ''noname'') v f)"
  using assms(1)
proof (cases rule: tryBlock_cases)
  case (unresolved e)
  from resolveVersion_fields(7) [OF unresolved(1) assms(2)] show ?thesis by auto
next
  case (hit v w0)
  have "w1 = w0 \<or> w1 = w0\<lparr>trace := trace w0 @ [CreateReadStream path]\<rparr>"
    using hit(5) cacheHit_Inl [of asset path res w0 _ res1 w1]
      cacheHit_Inr [of asset path res w0 _ res1 w1] by (cases r) auto
  with assms(2) have "Fetch u \<in> set (trace w0)" by auto
  from resolveVersion_fields(7) [OF hit(1) this] show ?thesis by auto
next
  case (miss v w0)
  from cacheMiss_trace [OF miss(5) assms(2)]
  have "Fetch u \<in> set (trace w0) \<or> (\<exists>f \<in> set (noname_fileList (noname req)).
      u = rawUrl (orElse (noname_owner (noname req)) ''libccy'')
            (orElse (noname_repo (noname req)) ''noname'') v f)"
    by auto
  with resolveVersion_fields(7) [OF miss(1), of "Fetch u"] show ?thesis by auto
qed

lemma listener_fetches:
  assumes "Fetch u \<in> set (trace (snd (nonameRequestListener req res w)))"
  shows "Fetch u \<in> set (trace w)
    \<or> u = tagsUrl (orElse (noname_owner (noname req)) ''libccy'')
          (orElse (noname_repo (noname req)) ''noname'')
    \<or> (\<exists>v. \<exists>f \<in> set (noname_fileList (noname req)).
          u = rawUrl (orElse (noname_owner (noname req)) ''libccy'')
                (orElse (noname_repo (noname req)) ''noname'') v f)"
proof (cases "req_method req = ''POST'' \<and> noname_action (noname req) = ''downloadAssets''")
  case False
  with assms show ?thesis by (auto simp: nonameRequestListener_def split: if_splits)
next
  case True
  obtain r asset path res1 w1 where t: "tryBlock req res w = (r, asset, path, res1, w1)"
    by (metis prod_cases5)
  have "Fetch u \<in> set (trace w1)"
  proof (cases r)
    case (Inl e)
    with t True assms listener_Inl [of req res w e asset path res1 w1] show ?thesis
      by (auto simp: catch_def Let_def split: if_splits)
  next
    case (Inr x)
    with t True assms listener_Inr [of req res w x asset path res1 w1] show ?thesis
      by auto
  qed
  from tryBlock_fetches [OF t this] show ?thesis .
qed

text \<open>
  Claim C10, as amended. For a \<^verbatim>\<open>POST\<close> request with action \<^verbatim>\<open>downloadAssets\<close> and an empty
  file list, the cache key is the SHA-256 digest of the empty byte sequence, and no file is
  fetched: the only request the listener can make is the tag request of version resolution.
  When version resolution succeeds, no local call throws and the cache has no entry under the
  name, the listener answers 200 with a finalized archive of zero entries and stores the same
  in the cache.
\<close>

theorem empty_file_list:
  assumes "req_method req = ''POST''" and "noname_action (noname req) = ''downloadAssets''"
    and "noname_fileList (noname req) = []"
  shows "generateHashFromArray (noname_fileList (noname req))
      = ''e3b0c44298fc1c149afbf4c8996fb92427ae41e4649b934ca495991b7852b855''
    \<and> (\<forall>u. Fetch u \<in> set (trace (snd (nonameRequestListener req newResponse w)))
          \<longrightarrow> Fetch u \<in> set (trace w)
            \<or> u = tagsUrl (orElse (noname_owner (noname req)) ''libccy'')
                  (orElse (noname_repo (noname req)) ''noname''))
    \<and> (\<forall>v w0 asset.
          resolveVersion (noname_version (noname req)) (orElse (noname_owner (noname req)) ''libccy'')
            (orElse (noname_repo (noname req)) ''noname'') w = (Inr v, w0)
          \<and> asset = assetName (orElse (noname_owner (noname req)) ''libccy'')
              (orElse (noname_repo (noname req)) ''noname'') v
              ''e3b0c44298fc1c149afbf4c8996fb92427ae41e4649b934ca495991b7852b855''
          \<and> (\<forall>s. throws w s = None) \<and> \<not> isExist (pathJoin ''noname'' asset) w
          \<longrightarrow> fst (nonameRequestListener req newResponse w)
                = newResponse\<lparr>statusCode := 200, headers := zipHeaders asset, headersSent := True,
                    written := Some (Archive [] True), writableEnded := True\<rparr>
              \<and> files (snd (nonameRequestListener req newResponse w)) (pathJoin ''noname'' asset)
                  = Some (Archive [] True)
              \<and> pending (snd (nonameRequestListener req newResponse w)) = pending w)"
proof -
  let ?o = "orElse (noname_owner (noname req)) ''libccy''"
  let ?r = "orElse (noname_repo (noname req)) ''noname''"
  let ?L = "nonameRequestListener req newResponse w"
  have a: "generateHashFromArray (noname_fileList (noname req))
      = ''e3b0c44298fc1c149afbf4c8996fb92427ae41e4649b934ca495991b7852b855''"
    using assms(3) hash_Nil by simp
  have b: "\<forall>u. Fetch u \<in> set (trace (snd ?L)) \<longrightarrow> Fetch u \<in> set (trace w) \<or> u = tagsUrl ?o ?r"
    using listener_fetches [of _ req newResponse w] assms(3) by auto
  have c: "fst ?L = newResponse\<lparr>statusCode := 200, headers := zipHeaders asset, headersSent := True,
                    written := Some (Archive [] True), writableEnded := True\<rparr>
        \<and> files (snd ?L) (pathJoin ''noname'' asset) = Some (Archive [] True)
        \<and> pending (snd ?L) = pending w"
    if rv: "resolveVersion (noname_version (noname req)) ?o ?r w = (Inr v, w0)"
      and asset: "asset = assetName ?o ?r v
        ''e3b0c44298fc1c149afbf4c8996fb92427ae41e4649b934ca495991b7852b855''"
      and nf: "\<forall>s. throws w s = None" and miss: "\<not> isExist (pathJoin ''noname'' asset) w"
    for v w0 asset
  proof -
    note f = resolveVersion_fields [OF rv]
    from nf f(2) have nf0: "throws w0 s = None" for s by simp
    from miss f(6) have miss0: "\<not> isExist (pathJoin ''noname'' asset) w0" by simp
    have "\<exists>w1. tryBlock req newResponse w
        = (Inr (), asset, pathJoin ''noname'' asset,
           newResponse\<lparr>statusCode := 200, headers := zipHeaders asset, headersSent := True,
             written := Some (Archive [] True), writableEnded := True\<rparr>, w1)
        \<and> files w1 (pathJoin ''noname'' asset) = Some (Archive [] True)
        \<and> pending w1 = pending w0"
      using rv asset miss0 a assms(3)
      by (simp add: tryBlock_def Let_def cacheMiss_defs nf0 newResponse_def)
    then obtain w1 where t: "tryBlock req newResponse w
        = (Inr (), asset, pathJoin ''noname'' asset,
           newResponse\<lparr>statusCode := 200, headers := zipHeaders asset, headersSent := True,
             written := Some (Archive [] True), writableEnded := True\<rparr>, w1)"
      and w1: "files w1 (pathJoin ''noname'' asset) = Some (Archive [] True)"
        "pending w1 = pending w0"
      by blast
    from listener_Inr [OF assms(1,2) t] w1 f(5) show ?thesis by simp
  qed
  from a b c show ?thesis by blast
qed

theorem empty_file_list_witness:
  "noname_fileList (noname (pinnedRequest [])) = []
   \<and> \<not> isExist (pathJoin ''noname'' (assetName ''libccy'' ''noname'' ''v1''
         ''e3b0c44298fc1c149afbf4c8996fb92427ae41e4649b934ca495991b7852b855'')) downWorld
   \<and> written (fst (nonameRequestListener (pinnedRequest []) newResponse downWorld))
       = Some (Archive [] True)
   \<and> files (snd (nonameRequestListener (pinnedRequest []) newResponse downWorld))
        (pathJoin ''noname'' (assetName ''libccy'' ''noname'' ''v1''
         ''e3b0c44298fc1c149afbf4c8996fb92427ae41e4649b934ca495991b7852b855''))
       = Some (Archive [] True)"
proof -
  let ?asset = "assetName ''libccy'' ''noname'' ''v1''
         ''e3b0c44298fc1c149afbf4c8996fb92427ae41e4649b934ca495991b7852b855''"
  have m: "\<not> isExist (pathJoin ''noname'' ?asset) downWorld"
    by (simp add: isExist_def downWorld_def)
  have n: "\<forall>s. throws downWorld s = None"
    by (simp add: downWorld_def)
  from empty_file_list [OF pinnedRequest_fields(1,2,3), of downWorld] m n
    pinnedRequest_fields(4) [of "[]" downWorld]
  have "fst (nonameRequestListener (pinnedRequest []) newResponse downWorld)
      = newResponse\<lparr>statusCode := 200, headers := zipHeaders ?asset, headersSent := True,
                    written := Some (Archive [] True), writableEnded := True\<rparr>
    \<and> files (snd (nonameRequestListener (pinnedRequest []) newResponse downWorld))
        (pathJoin ''noname'' ?asset) = Some (Archive [] True)"
    by (simp add: pinnedRequest_fields)
  with m show ?thesis by (simp add: pinnedRequest_fields)
qed

text \<open>
  The claim as stated fails: a request with an empty file list that names no version fails
  with status 500 and no archive when the tag request is rejected.
\<close>

theorem empty_file_list_can_fail:
  "noname_action (noname (latestRequest [])) = ''downloadAssets''
   \<and> noname_fileList (noname (latestRequest [])) = []
   \<and> statusCode (fst (nonameRequestListener (latestRequest []) newResponse downWorld)) = 500
   \<and> written (fst (nonameRequestListener (latestRequest []) newResponse downWorld)) = None"
proof -
  have "req_method (latestRequest []) = ''POST''"
    and "noname_action (noname (latestRequest [])) = ''downloadAssets''"
    by (simp_all add: latestRequest_def)
  from listener_Inl [OF this tryBlock_down] show ?thesis
    by (simp add: catch_def Let_def newResponse_def endResponse_def writeHead_def latestRequest_def)
qed

end
